theory Spec2Isabelle
  imports Complex_Main
begin

section \<open>The record store gateway\<close>

text \<open>
  Both programs of the repository talk to the database through the \<open>immudb-node\<close>
  client. The engine behind the client is not part of the repository, so it is a
  parameter of the model: for every operation of the client, a function from the calls
  made so far on the session and the arguments of the new call to either the error the
  call throws or the value it resolves to. The state of a session is the list of calls
  made on it.
\<close>

datatype js_error = Error (message: string)

text \<open>
  A value of a parameter or of a cell. The parameters of a statement are an object, read
  here as the list of its keys with their values; a row is read as the list of the values
  of its cells (\<open>row.values[k].value\<close>).
\<close>

datatype sql_value = VString string | VInt int | VNull

type_synonym params = "(string \<times> sql_value) list"

type_synonym row = "sql_value list"

datatype call =
    Login string string
  | CreateDatabase string
  | UseDatabase string
  | SQLExec string params
  | SQLQuery string params
  | Logout

text \<open>
  The result of \<open>SQLExec\<close>, as far as the programs read it: the ids in the headers of
  its transactions. A query resolves to rows, or to no result at all (\<open>None\<close>).
\<close>

datatype sql_exec_result = ExecResult (txs: "nat list")

record engine =
  on_login :: "call list \<Rightarrow> string \<Rightarrow> string \<Rightarrow> js_error + unit"
  on_createDatabase :: "call list \<Rightarrow> string \<Rightarrow> js_error + unit"
  on_useDatabase :: "call list \<Rightarrow> string \<Rightarrow> js_error + unit"
  on_SQLExec :: "call list \<Rightarrow> string \<Rightarrow> params \<Rightarrow> js_error + sql_exec_result"
  on_SQLQuery :: "call list \<Rightarrow> string \<Rightarrow> params \<Rightarrow> js_error + row list option"
  on_logout :: "call list \<Rightarrow> js_error + unit"

text \<open>
  What a program prints. A line is the template of the message with the values
  interpolated into it.
\<close>

datatype console_line =
    Connecting
  | Connected
  | CreatedDatabase string
  | UsingExistingDatabase string
  | ReadingFile
  | FoundRecords nat
  | CreatingSchema
  | SchemaCreated
  | BulkInserted nat nat
  | BatchError nat string
  | Imported nat
  | Verifying
  | TotalRecords sql_value
  | CountFailed string
  | SampleHeader
  | SampleRecord nat sql_value sql_value sql_value
  | NoSampleRecords
  | SampleFailed string
  | ErrorImporting string
  | Disconnected
  | ConnectionAlreadyClosed
  | LoggedRows "row list"

record run_state =
  console :: "console_line list"
  calls :: "call list"

definition console_log :: "console_line \<Rightarrow> run_state \<Rightarrow> run_state" where
  "console_log l st = st\<lparr>console := console st @ [l]\<rparr>"

definition client_SQLExec ::
  "engine \<Rightarrow> string \<Rightarrow> params \<Rightarrow> run_state \<Rightarrow> (js_error + sql_exec_result) \<times> run_state" where
  "client_SQLExec eng sql ps st =
     (on_SQLExec eng (calls st) sql ps, st\<lparr>calls := calls st @ [SQLExec sql ps]\<rparr>)"

definition client_SQLQuery ::
  "engine \<Rightarrow> string \<Rightarrow> params \<Rightarrow> run_state \<Rightarrow> (js_error + row list option) \<times> run_state" where
  "client_SQLQuery eng sql ps st =
     (on_SQLQuery eng (calls st) sql ps, st\<lparr>calls := calls st @ [SQLQuery sql ps]\<rparr>)"

section \<open>The batch importer\<close>

subsection \<open>Import records and the generated statement\<close>

text \<open>
  A field of an import record is a string or \<open>null\<close>; \<open>None\<close> stands for
  \<open>null\<close> and for a field that is missing from the JSON object.
\<close>

record MBACandidateRecord =
  AcademicYear :: "string option"
  ProgramID :: "string option"
  ProgramShortName :: "string option"
  UserId :: "string option"
  ApplicationID :: "string option"
  CandidateName :: "string option"
  ApplicantCategoryId :: "string option"
  ApplicantCategory :: "string option"
  AdmissionCategoryId :: "string option"
  AdmissionCategory :: "string option"
  CasteName :: "string option"
  Gender :: "string option"
  DOB :: "string option"
  ReligionID :: "string option"
  Religion :: "string option"
  MotherTongueId :: "string option"
  MotherTongue :: "string option"
  IncomeId :: "string option"
  AnnualFamilyIncome :: "string option"
  FinalCandidatureType :: "string option"
  FinalPHType :: "string option"
  FinalDefenceType :: "string option"
  LingusticMinority :: "string option"
  ReligiousMinority :: "string option"
  CandidateMobile :: "string option"
  Email :: "string option"
  AdmittedChoiceCode :: "string option"
  AdmittedChoiceCodeDisplay :: "string option"
  AdmittedCourseName :: "string option"
  AdmittedInstituteCode :: "string option"
  AdmittedInstituteName :: "string option"
  AdmittedInstituteDistrict :: "string option"
  AdmittedInstituteStatus1 :: "string option"
  AdmittedInstituteStatus2 :: "string option"
  AdmittedInstituteStatus3 :: "string option"
  AdmittedCourseStatus1 :: "string option"
  AdmittedCourseStatus2 :: "string option"
  AdmittedCourseStatus3 :: "string option"
  AdmittedCourseGender :: "string option"
  SeatTypeAllotted :: "string option"
  CAPorIL :: "string option"
  CAPRoundNo :: "string option"
  CAPRoundDetails :: "string option"
  TotalFees :: "string option"
  AdmissionDate :: "string option"
  AdmissionUploadDate :: "string option"
  StateMeritSLGMN :: "string option"
  AllIndiaMeritNo :: "string option"
  MeritMarks :: "string option"
  CAPAdmissionTFWS :: "string option"
  CAPAdmissionEWS :: "string option"
  CAPAdmissionOrphan :: "string option"
  NON_CAP :: "string option"
  MotherName :: "string option"
  Status :: "string option"
  StatusDetails :: "string option"

definition mba_candidates :: string where
  "mba_candidates = ''mba_students''"

definition quote :: char where
  "quote = CHR 0x27"

text \<open>\<open>str.replace(/'/g, "''")\<close>: every quote character is replaced by two.\<close>

fun replace_quotes :: "string \<Rightarrow> string" where
  "replace_quotes [] = []"
| "replace_quotes (c # cs) =
     (if c = quote then quote # quote # replace_quotes cs else c # replace_quotes cs)"

text \<open>\<open>!str\<close> holds of \<open>null\<close>, of a missing field and of the empty string.\<close>

definition escape :: "string option \<Rightarrow> string" where
  "escape str =
     (case str of
        None \<Rightarrow> []
      | Some s \<Rightarrow> if s = [] then [] else replace_quotes s)"

definition values_row :: "MBACandidateRecord \<Rightarrow> string" where
  "values_row candidate =
     ''(\<newline>'' @
     ''          '' @ [quote] @ escape (AcademicYear candidate) @ [quote] @ '',\<newline>'' @
     ''          '' @ [quote] @ escape (ProgramID candidate) @ [quote] @ '',\<newline>'' @
     ''          '' @ [quote] @ escape (ProgramShortName candidate) @ [quote] @ '',\<newline>'' @
     ''          '' @ [quote] @ escape (UserId candidate) @ [quote] @ '',\<newline>'' @
     ''          '' @ [quote] @ escape (ApplicationID candidate) @ [quote] @ '',\<newline>'' @
     ''          '' @ [quote] @ escape (CandidateName candidate) @ [quote] @ '',\<newline>'' @
     ''          '' @ [quote] @ escape (ApplicantCategoryId candidate) @ [quote] @ '',\<newline>'' @
     ''          '' @ [quote] @ escape (ApplicantCategory candidate) @ [quote] @ '',\<newline>'' @
     ''          '' @ [quote] @ escape (AdmissionCategoryId candidate) @ [quote] @ '',\<newline>'' @
     ''          '' @ [quote] @ escape (AdmissionCategory candidate) @ [quote] @ '',\<newline>'' @
     ''          '' @ [quote] @ escape (CasteName candidate) @ [quote] @ '',\<newline>'' @
     ''          '' @ [quote] @ escape (Gender candidate) @ [quote] @ '',\<newline>'' @
     ''          '' @ [quote] @ escape (DOB candidate) @ [quote] @ '',\<newline>'' @
     ''          '' @ [quote] @ escape (ReligionID candidate) @ [quote] @ '',\<newline>'' @
     ''          '' @ [quote] @ escape (Religion candidate) @ [quote] @ '',\<newline>'' @
     ''          '' @ [quote] @ escape (MotherTongueId candidate) @ [quote] @ '',\<newline>'' @
     ''          '' @ [quote] @ escape (MotherTongue candidate) @ [quote] @ '',\<newline>'' @
     ''          '' @ [quote] @ escape (IncomeId candidate) @ [quote] @ '',\<newline>'' @
     ''          '' @ [quote] @ escape (AnnualFamilyIncome candidate) @ [quote] @ '',\<newline>'' @
     ''          '' @ [quote] @ escape (FinalCandidatureType candidate) @ [quote] @ '',\<newline>'' @
     ''          '' @ [quote] @ escape (FinalPHType candidate) @ [quote] @ '',\<newline>'' @
     ''          '' @ [quote] @ escape (FinalDefenceType candidate) @ [quote] @ '',\<newline>'' @
     ''          '' @ [quote] @ escape (LingusticMinority candidate) @ [quote] @ '',\<newline>'' @
     ''          '' @ [quote] @ escape (ReligiousMinority candidate) @ [quote] @ '',\<newline>'' @
     ''          '' @ [quote] @ escape (CandidateMobile candidate) @ [quote] @ '',\<newline>'' @
     ''          '' @ [quote] @ escape (Email candidate) @ [quote] @ '',\<newline>'' @
     ''          '' @ [quote] @ escape (AdmittedChoiceCode candidate) @ [quote] @ '',\<newline>'' @
     ''          '' @ [quote] @ escape (AdmittedChoiceCodeDisplay candidate) @ [quote] @ '',\<newline>'' @
     ''          '' @ [quote] @ escape (AdmittedCourseName candidate) @ [quote] @ '',\<newline>'' @
     ''          '' @ [quote] @ escape (AdmittedInstituteCode candidate) @ [quote] @ '',\<newline>'' @
     ''          '' @ [quote] @ escape (AdmittedInstituteName candidate) @ [quote] @ '',\<newline>'' @
     ''          '' @ [quote] @ escape (AdmittedInstituteDistrict candidate) @ [quote] @ '',\<newline>'' @
     ''          '' @ [quote] @ escape (AdmittedInstituteStatus1 candidate) @ [quote] @ '',\<newline>'' @
     ''          '' @ [quote] @ escape (AdmittedInstituteStatus2 candidate) @ [quote] @ '',\<newline>'' @
     ''          '' @ [quote] @ escape (AdmittedInstituteStatus3 candidate) @ [quote] @ '',\<newline>'' @
     ''          '' @ [quote] @ escape (AdmittedCourseStatus1 candidate) @ [quote] @ '',\<newline>'' @
     ''          '' @ [quote] @ escape (AdmittedCourseStatus2 candidate) @ [quote] @ '',\<newline>'' @
     ''          '' @ [quote] @ escape (AdmittedCourseStatus3 candidate) @ [quote] @ '',\<newline>'' @
     ''          '' @ [quote] @ escape (AdmittedCourseGender candidate) @ [quote] @ '',\<newline>'' @
     ''          '' @ [quote] @ escape (SeatTypeAllotted candidate) @ [quote] @ '',\<newline>'' @
     ''          '' @ [quote] @ escape (CAPorIL candidate) @ [quote] @ '',\<newline>'' @
     ''          '' @ [quote] @ escape (CAPRoundNo candidate) @ [quote] @ '',\<newline>'' @
     ''          '' @ [quote] @ escape (CAPRoundDetails candidate) @ [quote] @ '',\<newline>'' @
     ''          '' @ [quote] @ escape (TotalFees candidate) @ [quote] @ '',\<newline>'' @
     ''          '' @ [quote] @ escape (AdmissionDate candidate) @ [quote] @ '',\<newline>'' @
     ''          '' @ [quote] @ escape (AdmissionUploadDate candidate) @ [quote] @ '',\<newline>'' @
     ''          '' @ [quote] @ escape (StateMeritSLGMN candidate) @ [quote] @ '',\<newline>'' @
     ''          '' @ [quote] @ escape (AllIndiaMeritNo candidate) @ [quote] @ '',\<newline>'' @
     ''          '' @ [quote] @ escape (MeritMarks candidate) @ [quote] @ '',\<newline>'' @
     ''          '' @ [quote] @ escape (CAPAdmissionTFWS candidate) @ [quote] @ '',\<newline>'' @
     ''          '' @ [quote] @ escape (CAPAdmissionEWS candidate) @ [quote] @ '',\<newline>'' @
     ''          '' @ [quote] @ escape (CAPAdmissionOrphan candidate) @ [quote] @ '',\<newline>'' @
     ''          '' @ [quote] @ escape (NON_CAP candidate) @ [quote] @ '',\<newline>'' @
     ''          '' @ [quote] @ escape (MotherName candidate) @ [quote] @ '',\<newline>'' @
     ''          '' @ [quote] @ escape (Status candidate) @ [quote] @ '',\<newline>'' @
     ''          '' @ [quote] @ escape (StatusDetails candidate) @ [quote] @ ''\<newline>'' @
     ''        )''"

fun join :: "string \<Rightarrow> string list \<Rightarrow> string" where
  "join sep [] = []"
| "join sep [x] = x"
| "join sep (x # y # ys) = x @ sep @ join sep (y # ys)"

definition insert_head :: string where
  "insert_head =
     ''\<newline>'' @
     ''        INSERT INTO '' @ mba_candidates @ '' (\<newline>'' @
     ''          academic_year, program_id, program_short_name, user_id, application_id,\<newline>'' @
     ''          candidate_name, applicant_category_id, applicant_category, admission_category_id,\<newline>'' @
     ''          admission_category, caste_name, gender, dob, religion_id, religion,\<newline>'' @
     ''          mother_tongue_id, mother_tongue, income_id, annual_family_income,\<newline>'' @
     ''          final_candidature_type, final_ph_type, final_defence_type, lingustic_minority,\<newline>'' @
     ''          religious_minority, candidate_mobile, email, admitted_choice_code,\<newline>'' @
     ''          admitted_choice_code_display, admitted_course_name, admitted_institute_code,\<newline>'' @
     ''          admitted_institute_name, admitted_institute_district, admitted_institute_status1,\<newline>'' @
     ''          admitted_institute_status2, admitted_institute_status3, admitted_course_status1,\<newline>'' @
     ''          admitted_course_status2, admitted_course_status3, admitted_course_gender,\<newline>'' @
     ''          seat_type_allotted, cap_or_il, cap_round_no, cap_round_details, total_fees,\<newline>'' @
     ''          admission_date, admission_upload_date, state_merit_slgmn, all_india_merit_no,\<newline>'' @
     ''          merit_marks, cap_admission_tfws, cap_admission_ews, cap_admission_orphan,\<newline>'' @
     ''          non_cap, mother_name, status, status_details\<newline>'' @
     ''        ) VALUES ''"

definition bulkInsertSQL :: "MBACandidateRecord list \<Rightarrow> string" where
  "bulkInsertSQL batch =
     insert_head @ join '','' (map values_row batch) @ ''\<newline>      ''"

definition createTableSQL :: string where
  "createTableSQL =
     ''\<newline>'' @
     ''      CREATE TABLE IF NOT EXISTS '' @ mba_candidates @ '' (\<newline>'' @
     ''        id INTEGER AUTO_INCREMENT,\<newline>'' @
     ''        academic_year VARCHAR(10),\<newline>'' @
     ''        program_id VARCHAR(20),\<newline>'' @
     ''        program_short_name VARCHAR(10),\<newline>'' @
     ''        user_id VARCHAR(20),\<newline>'' @
     ''        application_id VARCHAR(20),\<newline>'' @
     ''        candidate_name VARCHAR(100),\<newline>'' @
     ''        applicant_category_id VARCHAR(5),\<newline>'' @
     ''        applicant_category VARCHAR(20),\<newline>'' @
     ''        admission_category_id VARCHAR(5),\<newline>'' @
     ''        admission_category VARCHAR(20),\<newline>'' @
     ''        caste_name VARCHAR(50),\<newline>'' @
     ''        gender VARCHAR(5),\<newline>'' @
     ''        dob VARCHAR(20),\<newline>'' @
     ''        religion_id VARCHAR(5),\<newline>'' @
     ''        religion VARCHAR(20),\<newline>'' @
     ''        mother_tongue_id VARCHAR(5),\<newline>'' @
     ''        mother_tongue VARCHAR(20),\<newline>'' @
     ''        income_id VARCHAR(5),\<newline>'' @
     ''        annual_family_income VARCHAR(50),\<newline>'' @
     ''        final_candidature_type VARCHAR(150),\<newline>'' @
     ''        final_ph_type VARCHAR(200),\<newline>'' @
     ''        final_defence_type VARCHAR(20),\<newline>'' @
     ''        lingustic_minority VARCHAR(50),\<newline>'' @
     ''        religious_minority VARCHAR(50),\<newline>'' @
     ''        candidate_mobile VARCHAR(50),\<newline>'' @
     ''        email VARCHAR(100),\<newline>'' @
     ''        admitted_choice_code VARCHAR(20),\<newline>'' @
     ''        admitted_choice_code_display VARCHAR(20),\<newline>'' @
     ''        admitted_course_name VARCHAR(255),\<newline>'' @
     ''        admitted_institute_code VARCHAR(10),\<newline>'' @
     ''        admitted_institute_name VARCHAR(200),\<newline>'' @
     ''        admitted_institute_district VARCHAR(50),\<newline>'' @
     ''        admitted_institute_status1 VARCHAR(50),\<newline>'' @
     ''        admitted_institute_status2 VARCHAR(50),\<newline>'' @
     ''        admitted_institute_status3 VARCHAR(50),\<newline>'' @
     ''        admitted_course_status1 VARCHAR(50),\<newline>'' @
     ''        admitted_course_status2 VARCHAR(50),\<newline>'' @
     ''        admitted_course_status3 VARCHAR(50),\<newline>'' @
     ''        admitted_course_gender VARCHAR(5),\<newline>'' @
     ''        seat_type_allotted VARCHAR(50),\<newline>'' @
     ''        cap_or_il VARCHAR(10),\<newline>'' @
     ''        cap_round_no VARCHAR(50),\<newline>'' @
     ''        cap_round_details VARCHAR(50),\<newline>'' @
     ''        total_fees VARCHAR(20),\<newline>'' @
     ''        admission_date VARCHAR(20),\<newline>'' @
     ''        admission_upload_date VARCHAR(50),\<newline>'' @
     ''        state_merit_slgmn VARCHAR(20),\<newline>'' @
     ''        all_india_merit_no VARCHAR(20),\<newline>'' @
     ''        merit_marks VARCHAR(20),\<newline>'' @
     ''        cap_admission_tfws VARCHAR(10),\<newline>'' @
     ''        cap_admission_ews VARCHAR(10),\<newline>'' @
     ''        cap_admission_orphan VARCHAR(10),\<newline>'' @
     ''        non_cap VARCHAR(10),\<newline>'' @
     ''        mother_name VARCHAR(100),\<newline>'' @
     ''        status VARCHAR(5),\<newline>'' @
     ''        status_details VARCHAR(20),\<newline>'' @
     ''        PRIMARY KEY (id)\<newline>'' @
     ''      )\<newline>'' @
     ''    ''"

subsection \<open>The import loop\<close>

text \<open>\<open>xs.slice(i, j)\<close> for \<open>0 \<le> i \<le> j\<close>; both ends are clamped to the length.\<close>

definition slice :: "'a list \<Rightarrow> nat \<Rightarrow> nat \<Rightarrow> 'a list" where
  "slice xs i j = take (j - i) (drop i xs)"

text \<open>
  One round of the loop, at offset \<open>i\<close>: the pair is the running \<open>insertedCount\<close>
  and the state of console and session.
\<close>

definition import_batch ::
  "engine \<Rightarrow> MBACandidateRecord list \<Rightarrow> nat \<Rightarrow> nat \<Rightarrow> nat \<times> run_state \<Rightarrow> nat \<times> run_state" where
  "import_batch eng candidates batchSize i s =
     (let insertedCount = fst s;
          batch = slice candidates i (i + batchSize)
      in case client_SQLExec eng (bulkInsertSQL batch) [] (snd s) of
           (Inr _, st) \<Rightarrow>
             (insertedCount + length batch,
              console_log (BulkInserted (insertedCount + length batch) (length candidates)) st)
         | (Inl error, st) \<Rightarrow>
             (insertedCount, console_log (BatchError i (message error)) st))"

text \<open>
  \<open>for (let i = 0; i < candidates.length; i += batchSize)\<close>. With a batch size of
  zero the loop of the source never ends, so the result is an option.
\<close>

partial_function (option) import_loop ::
  "engine \<Rightarrow> MBACandidateRecord list \<Rightarrow> nat \<Rightarrow> nat \<Rightarrow> nat \<times> run_state \<Rightarrow> (nat \<times> run_state) option" where
  "import_loop eng candidates batchSize i s =
     (if i < length candidates
      then import_loop eng candidates batchSize (i + batchSize)
             (import_batch eng candidates batchSize i s)
      else Some s)"

definition batchSize :: nat where
  "batchSize = 1000"

subsection \<open>The whole run\<close>

text \<open>
  The remaining operations of the client. Every call is recorded on the session, whether
  it fails or not.
\<close>

definition client_login ::
  "engine \<Rightarrow> string \<Rightarrow> string \<Rightarrow> run_state \<Rightarrow> (js_error + unit) \<times> run_state" where
  "client_login eng user password st =
     (on_login eng (calls st) user password, st\<lparr>calls := calls st @ [Login user password]\<rparr>)"

definition client_createDatabase ::
  "engine \<Rightarrow> string \<Rightarrow> run_state \<Rightarrow> (js_error + unit) \<times> run_state" where
  "client_createDatabase eng databasename st =
     (on_createDatabase eng (calls st) databasename,
      st\<lparr>calls := calls st @ [CreateDatabase databasename]\<rparr>)"

definition client_useDatabase ::
  "engine \<Rightarrow> string \<Rightarrow> run_state \<Rightarrow> (js_error + unit) \<times> run_state" where
  "client_useDatabase eng databasename st =
     (on_useDatabase eng (calls st) databasename,
      st\<lparr>calls := calls st @ [UseDatabase databasename]\<rparr>)"

definition client_logout :: "engine \<Rightarrow> run_state \<Rightarrow> (js_error + unit) \<times> run_state" where
  "client_logout eng st = (on_logout eng (calls st), st\<lparr>calls := calls st @ [Logout]\<rparr>)"

text \<open>
  The export file: \<open>type\<close> and \<open>data\<close> are the fields the importer reads.
\<close>

record JSONExportData =
  type' :: string
  name' :: "string option"
  version :: "string option"
  comment :: "string option"
  database :: "string option"
  data' :: "MBACandidateRecord list option"

definition dbName :: string where
  "dbName = ''mba_data''"

text \<open>\<open>s.includes(sub)\<close>\<close>

fun includes' :: "string \<Rightarrow> string \<Rightarrow> bool" where
  "includes' [] sub = (sub = [])"
| "includes' (c # cs) sub = (take (length sub) (c # cs) = sub \<or> includes' cs sub)"

text \<open>
  Creating the database: an error whose message includes \<open>already exists\<close> is
  swallowed, any other is thrown again.
\<close>

definition create_or_use_database :: "engine \<Rightarrow> run_state \<Rightarrow> (js_error + unit) \<times> run_state" where
  "create_or_use_database eng st =
     (case client_createDatabase eng dbName st of
        (Inr _, st') \<Rightarrow> (Inr (), console_log (CreatedDatabase dbName) st')
      | (Inl error, st') \<Rightarrow>
          if message error \<noteq> [] \<and> includes' (message error) ''already exists''
          then (Inr (), console_log (UsingExistingDatabase dbName) st')
          else (Inl error, st'))"

text \<open>
  Reading and parsing the file is outside the model: \<open>file\<close> is the parsed content, or
  the error that \<open>readFileSync\<close> or \<open>JSON.parse\<close> threw.
\<close>

definition find_candidates ::
  "js_error + JSONExportData list \<Rightarrow> js_error + MBACandidateRecord list" where
  "find_candidates file =
     (case file of
        Inl error \<Rightarrow> Inl error
      | Inr parsedData \<Rightarrow>
          (case find (\<lambda>item. type' item = ''table'' \<and> data' item \<noteq> None) parsedData of
             None \<Rightarrow> Inl (Error ''No table data found in JSON file'')
           | Some tableData \<Rightarrow>
               (case data' tableData of
                  None \<Rightarrow> Inl (Error ''No table data found in JSON file'')
                | Some candidates \<Rightarrow> Inr candidates)))"

text \<open>
  Everything before the loop: login, database, file, table. The result is the dataset,
  or the error that ends the \<open>try\<close> block.
\<close>

definition import_setup ::
  "engine \<Rightarrow> js_error + JSONExportData list \<Rightarrow> run_state \<Rightarrow>
     (js_error + MBACandidateRecord list) \<times> run_state" where
  "import_setup eng file st0 =
     (case client_login eng ''immudb'' ''immudb'' (console_log Connecting st0) of
        (Inl error, st1) \<Rightarrow> (Inl error, st1)
      | (Inr _, st1) \<Rightarrow>
     (case create_or_use_database eng (console_log Connected st1) of
        (Inl error, st2) \<Rightarrow> (Inl error, st2)
      | (Inr _, st2) \<Rightarrow>
     (case client_useDatabase eng dbName st2 of
        (Inl error, st3) \<Rightarrow> (Inl error, st3)
      | (Inr _, st3) \<Rightarrow>
     (case find_candidates file of
        Inl error \<Rightarrow> (Inl error, console_log ReadingFile st3)
      | Inr candidates \<Rightarrow>
     (case client_SQLExec eng createTableSQL []
             (console_log CreatingSchema
               (console_log (FoundRecords (length candidates))
                 (console_log ReadingFile st3))) of
        (Inl error, st4) \<Rightarrow> (Inl error, st4)
      | (Inr _, st4) \<Rightarrow> (Inr candidates, console_log SchemaCreated st4))))))"

text \<open>
  \<open>row.values?.[k]?.value || d\<close>: the default replaces a missing cell and a falsy
  value.
\<close>

fun falsy :: "sql_value \<Rightarrow> bool" where
  "falsy VNull = True"
| "falsy (VInt i) = (i = 0)"
| "falsy (VString s) = (s = [])"

definition value_or :: "row \<Rightarrow> nat \<Rightarrow> sql_value \<Rightarrow> sql_value" where
  "value_or r k d = (if k < length r \<and> \<not> falsy (r ! k) then r ! k else d)"

definition countSQL :: string where
  "countSQL = ''SELECT COUNT(*) as total FROM '' @ mba_candidates"

definition sampleSQL :: string where
  "sampleSQL =
     ''SELECT candidate_name, application_id, admitted_course_name FROM '' @ mba_candidates @
     '' LIMIT 5''"

definition count_records :: "engine \<Rightarrow> run_state \<Rightarrow> run_state" where
  "count_records eng st =
     (case client_SQLQuery eng countSQL [] st of
        (Inl error, st') \<Rightarrow> console_log (CountFailed (message error)) st'
      | (Inr countResult, st') \<Rightarrow>
          (case countResult of
             Some (firstRow # _) \<Rightarrow> console_log (TotalRecords (value_or firstRow 0 (VInt 0))) st'
           | _ \<Rightarrow> st'))"

definition sample_line :: "nat \<times> row \<Rightarrow> console_line" where
  "sample_line ir =
     SampleRecord (fst ir + 1) (value_or (snd ir) 0 (VString ''N/A''))
       (value_or (snd ir) 1 (VString ''N/A'')) (value_or (snd ir) 2 (VString ''N/A''))"

definition sample_records :: "engine \<Rightarrow> run_state \<Rightarrow> run_state" where
  "sample_records eng st =
     (case client_SQLQuery eng sampleSQL [] st of
        (Inl error, st') \<Rightarrow> console_log (SampleFailed (message error)) st'
      | (Inr sampleResult, st') \<Rightarrow>
          (case sampleResult of
             Some (r # rs) \<Rightarrow>
               st'\<lparr>console := console st' @ map sample_line (enumerate 0 (r # rs))\<rparr>
           | _ \<Rightarrow> console_log NoSampleRecords st'))"

text \<open>The verification pass: both queries sit in a \<open>try\<close> of their own.\<close>

definition verify_import :: "engine \<Rightarrow> run_state \<Rightarrow> run_state" where
  "verify_import eng st =
     sample_records eng (console_log SampleHeader (count_records eng (console_log Verifying st)))"

text \<open>The \<open>try\<close> block of \<open>importJSONToImmuDB\<close>.\<close>

definition import_body ::
  "engine \<Rightarrow> js_error + JSONExportData list \<Rightarrow> run_state \<Rightarrow>
     ((js_error + unit) \<times> run_state) option" where
  "import_body eng file st0 =
     (case import_setup eng file st0 of
        (Inl error, st) \<Rightarrow> Some (Inl error, st)
      | (Inr candidates, st) \<Rightarrow>
          (case import_loop eng candidates batchSize 0 (0, st) of
             None \<Rightarrow> None
           | Some (insertedCount, st') \<Rightarrow>
               Some (Inr (), verify_import eng (console_log (Imported insertedCount) st'))))"

text \<open>The \<open>finally\<close> block: a failing logout is caught.\<close>

definition import_finally :: "engine \<Rightarrow> run_state \<Rightarrow> run_state" where
  "import_finally eng st =
     (case client_logout eng st of
        (Inr _, st') \<Rightarrow> console_log Disconnected st'
      | (Inl _, st') \<Rightarrow> console_log ConnectionAlreadyClosed st')"

text \<open>
  The run: \<open>Inr ()\<close> when the promise resolves, \<open>Inl error\<close> when it is rejected (the
  \<open>catch\<close> block prints the error and throws it again), \<open>None\<close> when the loop does
  not end.
\<close>

definition importJSONToImmuDB ::
  "engine \<Rightarrow> js_error + JSONExportData list \<Rightarrow> run_state \<Rightarrow>
     ((js_error + unit) \<times> run_state) option" where
  "importJSONToImmuDB eng file st0 =
     (case import_body eng file st0 of
        None \<Rightarrow> None
      | Some (Inl error, st) \<Rightarrow>
          Some (Inl error, import_finally eng (console_log (ErrorImporting (message error)) st))
      | Some (Inr _, st) \<Rightarrow> Some (Inr (), import_finally eng st))"

section \<open>The CRUD service\<close>

text \<open>
  \<open>Omit<User, 'createdAt'>\<close>, \<open>User\<close> and \<open>Partial<Omit<User, 'id' | 'createdAt'>>\<close>.
  A field of the last that is \<open>undefined\<close> or \<open>null\<close> is \<open>None\<close>. The
  argument \<open>id\<close> of the methods is written \<open>uid\<close>.
\<close>

datatype date = Date int

record user_input =
  id' :: string
  name :: string
  email :: string

record User = user_input +
  createdAt :: date

record user_updates =
  name_opt :: "string option"
  email_opt :: "string option"

datatype response_data = UserData User | RowData row | RowsData "row list option"

datatype response_proof =
    ExecProof sql_exec_result
  | QueryProof "row list option"
  | NoteProof string

record VerifiedResponse =
  data :: response_data
  verified :: bool
  txId :: "string option"
  proof' :: "response_proof option"

text \<open>The decimal digits of a number, for \<open>id.toString()\<close>.\<close>

fun toString_nat :: "nat \<Rightarrow> string" where
  "toString_nat n =
     (if n < 10 then [char_of (48 + n)]
      else toString_nat (n div 10) @ [char_of (48 + n mod 10)])"

text \<open>\<open>result.txs?.[0]?.header?.id?.toString()\<close>\<close>

definition first_txId :: "sql_exec_result \<Rightarrow> string option" where
  "first_txId result = (case txs result of [] \<Rightarrow> None | t # _ \<Rightarrow> Some (toString_nat t))"

text \<open>An error interpolated into a template string: \<open>`${error}`\<close>.\<close>

definition toString_error :: "js_error \<Rightarrow> string" where
  "toString_error error = (if message error = [] then ''Error'' else ''Error: '' @ message error)"

definition insertUserSQL :: string where
  \<open>insertUserSQL =
     ''\<newline>'' @
     ''          INSERT INTO "users" (id, name, email, created_at) \<newline>'' @
     ''          VALUES (@id, @name, @email, @createdAt)\<newline>'' @
     ''        ''\<close>

definition selectUserSQL :: string where
  \<open>selectUserSQL =
     ''\<newline>'' @
     ''          SELECT id, name, email, created_at \<newline>'' @
     ''          FROM "users" \<newline>'' @
     ''          WHERE id = @id\<newline>'' @
     ''        ''\<close>

definition updateUserSQL :: string where
  \<open>updateUserSQL =
     ''\<newline>'' @
     ''          UPDATE "users" \<newline>'' @
     ''          SET name = @name, email = @email\<newline>'' @
     ''          WHERE id = @id\<newline>'' @
     ''        ''\<close>

definition historySQL :: string where
  \<open>historySQL = ''SELECT * FROM (HISTORY OF "users") WHERE id = @id''\<close>

text \<open>\<open>createUser\<close>; \<open>now\<close> is what \<open>Date.now()\<close> returns.\<close>

definition createUser ::
  "engine \<Rightarrow> user_input \<Rightarrow> int \<Rightarrow> run_state \<Rightarrow> (js_error + VerifiedResponse) \<times> run_state" where
  "createUser eng user now st =
     (case client_SQLExec eng insertUserSQL
             [(''id'', VString (id' user)), (''name'', VString (name user)),
              (''email'', VString (email user)), (''createdAt'', VInt now)] st of
        (Inl error, st') \<Rightarrow>
          (Inl (Error (''Failed to create user: '' @ toString_error error)), st')
      | (Inr result, st') \<Rightarrow>
          (Inr \<lparr>data = UserData \<lparr>id' = id' user, name = name user, email = email user,
                                 createdAt = Date now\<rparr>,
                verified = True, txId = first_txId result, proof' = Some (ExecProof result)\<rparr>,
           st'))"

text \<open>
  \<open>getUser\<close>: no result and an empty result throw \<open>User not found\<close> inside the
  \<open>try\<close>, so the \<open>catch\<close> wraps that error like any other.
\<close>

definition getUser ::
  "engine \<Rightarrow> string \<Rightarrow> run_state \<Rightarrow> (js_error + VerifiedResponse) \<times> run_state" where
  "getUser eng uid st =
     (case client_SQLQuery eng selectUserSQL [(''id'', VString uid)] st of
        (Inl error, st') \<Rightarrow> (Inl (Error (''Failed to get user: '' @ toString_error error)), st')
      | (Inr result, st') \<Rightarrow>
          (case result of
             Some (row # rows) \<Rightarrow>
               (Inr \<lparr>data = RowData row, verified = True, txId = None,
                     proof' = Some (QueryProof result)\<rparr>,
                console_log (LoggedRows (row # rows)) st')
           | _ \<Rightarrow>
               (Inl (Error (''Failed to get user: '' @ toString_error (Error ''User not found''))),
                st')))"

text \<open>\<open>x || ''\<close> for an optional string.\<close>

definition or_empty :: "string option \<Rightarrow> string" where
  "or_empty x = (case x of None \<Rightarrow> [] | Some s \<Rightarrow> s)"

definition updateUser ::
  "engine \<Rightarrow> string \<Rightarrow> user_updates \<Rightarrow> run_state \<Rightarrow> (js_error + VerifiedResponse) \<times> run_state" where
  "updateUser eng uid updates st =
     (case getUser eng uid st of
        (Inl error, st1) \<Rightarrow>
          (Inl (Error (''Failed to update user: '' @ toString_error error)), st1)
      | (Inr _, st1) \<Rightarrow>
     (case client_SQLExec eng updateUserSQL
             [(''id'', VString uid), (''name'', VString (or_empty (name_opt updates))),
              (''email'', VString (or_empty (email_opt updates)))] st1 of
        (Inl error, st2) \<Rightarrow>
          (Inl (Error (''Failed to update user: '' @ toString_error error)), st2)
      | (Inr result, st2) \<Rightarrow>
     (case getUser eng uid st2 of
        (Inl error, st3) \<Rightarrow>
          (Inl (Error (''Failed to update user: '' @ toString_error error)), st3)
      | (Inr updatedUser, st3) \<Rightarrow>
          (Inr \<lparr>data = data updatedUser, verified = True, txId = first_txId result,
                proof' = Some (ExecProof result)\<rparr>,
           st3))))"

text \<open>\<open>getUserAtTransaction\<close>; an absent \<open>txId\<close> prints as \<open>undefined\<close>.\<close>

definition getUserAtTransaction ::
  "engine \<Rightarrow> string \<Rightarrow> string option \<Rightarrow> run_state \<Rightarrow> (js_error + VerifiedResponse) \<times> run_state" where
  "getUserAtTransaction eng uid tx st =
     (case client_SQLQuery eng historySQL [(''id'', VString uid)] st of
        (Inl error, st') \<Rightarrow>
          (Inl (Error (''Failed to get historical user data: '' @ toString_error error)), st')
      | (Inr result, st') \<Rightarrow>
          (Inr \<lparr>data = RowsData result, verified = True, txId = None,
                proof' = Some (NoteProof (''Historical data before transaction '' @
                  (case tx of None \<Rightarrow> ''undefined'' | Some t \<Rightarrow> t)))\<rparr>,
           st'))"

text \<open>The route \<open>GET /users/:id\<close>: status and JSON body of the response.\<close>

datatype http_body = Success response_data bool bool | Failure string

record http_response =
  status :: nat
  body :: http_body

definition get_user_route :: "engine \<Rightarrow> string \<Rightarrow> run_state \<Rightarrow> http_response \<times> run_state" where
  "get_user_route eng uid st =
     (case getUser eng uid st of
        (Inr result, st') \<Rightarrow>
          (\<lparr>status = 200,
            body = Success (data result) (verified result) (proof' result \<noteq> None)\<rparr>, st')
      | (Inl error, st') \<Rightarrow> (\<lparr>status = 404, body = Failure (message error)\<rparr>, st'))"

text \<open>The calls that the service makes on the session.\<close>

definition select_call :: "string \<Rightarrow> call" where
  "select_call uid = SQLQuery selectUserSQL [(''id'', VString uid)]"

definition update_call :: "string \<Rightarrow> user_updates \<Rightarrow> call" where
  "update_call uid updates =
     SQLExec updateUserSQL
       [(''id'', VString uid), (''name'', VString (or_empty (name_opt updates))),
        (''email'', VString (or_empty (email_opt updates)))]"

definition insert_call :: "user_input \<Rightarrow> int \<Rightarrow> call" where
  "insert_call user now =
     SQLExec insertUserSQL
       [(''id'', VString (id' user)), (''name'', VString (name user)),
        (''email'', VString (email user)), (''createdAt'', VInt now)]"

section \<open>Reading a statement\<close>

text \<open>
  The grammar of the engine is not part of the repository. The reader below is the part
  of SQL that the statements of the repository are written in, and it stands for the
  engine wherever a theorem speaks of what a statement text says. A statement is well
  formed when the reader accepts it.

  Tokens: a string literal starts and ends with a quote, and inside it two quotes in a
  row stand for one quote character; a name is a word of letters, digits and underscores,
  or any text between double quotes; a parameter is \<open>@\<close> followed by a word; the rest is
  punctuation and white space. Statements: \<open>INSERT INTO t (c, ...) VALUES (v, ...), ...\<close>
  where every row has as many values as there are columns, \<open>UPDATE t SET c = v, ...
  WHERE c = v\<close> and \<open>SELECT c, ... FROM t WHERE c = v\<close>; a value is a literal or a
  parameter.
\<close>

datatype token =
    Word string
  | Quoted string
  | Param string
  | Lit string
  | LParen
  | RParen
  | Comma
  | Equals

datatype lex_state =
    Outside
  | InWord string
  | InParam string
  | InQuoted string
  | Inside string
  | Pending string

definition is_space :: "char \<Rightarrow> bool" where
  "is_space c \<longleftrightarrow> c = CHR '' '' \<or> c = CHR ''\<newline>'' \<or> c = CHR 0x09 \<or> c = CHR 0x0D"

definition is_word_char :: "char \<Rightarrow> bool" where
  "is_word_char c \<longleftrightarrow>
     (let n = (of_char c :: nat)
      in (97 \<le> n \<and> n \<le> 122) \<or> (65 \<le> n \<and> n \<le> 90) \<or> (48 \<le> n \<and> n \<le> 57) \<or> n = 95)"

definition punctuation :: "char \<Rightarrow> token option" where
  "punctuation c =
     (if c = CHR ''('' then Some LParen
      else if c = CHR '')'' then Some RParen
      else if c = CHR '','' then Some Comma
      else if c = CHR ''='' then Some Equals
      else None)"

text \<open>A character met between tokens: the new state and the tokens it completes.\<close>

definition start_token :: "char \<Rightarrow> (lex_state \<times> token list) option" where
  "start_token c =
     (if c = quote then Some (Inside [], [])
      else if c = CHR 0x22 then Some (InQuoted [], [])
      else if c = CHR ''@'' then Some (InParam [], [])
      else if is_space c then Some (Outside, [])
      else (case punctuation c of
              Some t \<Rightarrow> Some (Outside, [t])
            | None \<Rightarrow> if is_word_char c then Some (InWord [c], []) else None))"

text \<open>
  \<open>Pending v\<close>: a quote has been read inside a literal; it ends the literal unless
  the next character is a quote too.
\<close>

fun lex_step :: "lex_state \<Rightarrow> char \<Rightarrow> (lex_state \<times> token list) option" where
  "lex_step Outside c = start_token c"
| "lex_step (InWord w) c =
     (if is_word_char c then Some (InWord (w @ [c]), [])
      else map_option (\<lambda>(st, ts). (st, Word w # ts)) (start_token c))"
| "lex_step (InParam p) c =
     (if is_word_char c then Some (InParam (p @ [c]), [])
      else map_option (\<lambda>(st, ts). (st, Param p # ts)) (start_token c))"
| "lex_step (InQuoted s) c =
     (if c = CHR 0x22 then Some (Outside, [Quoted s]) else Some (InQuoted (s @ [c]), []))"
| "lex_step (Inside v) c =
     (if c = quote then Some (Pending v, []) else Some (Inside (v @ [c]), []))"
| "lex_step (Pending v) c =
     (if c = quote then Some (Inside (v @ [quote]), [])
      else map_option (\<lambda>(st, ts). (st, Lit v # ts)) (start_token c))"

fun lex_run :: "lex_state \<Rightarrow> string \<Rightarrow> (token list \<times> lex_state) option" where
  "lex_run st [] = Some ([], st)"
| "lex_run st (c # cs) =
     (case lex_step st c of
        None \<Rightarrow> None
      | Some (st', ts) \<Rightarrow> map_option (\<lambda>(us, st''). (ts @ us, st'')) (lex_run st' cs))"

fun lex_finish :: "lex_state \<Rightarrow> token list option" where
  "lex_finish Outside = Some []"
| "lex_finish (InWord w) = Some [Word w]"
| "lex_finish (InParam p) = Some [Param p]"
| "lex_finish (Pending v) = Some [Lit v]"
| "lex_finish (InQuoted s) = None"
| "lex_finish (Inside v) = None"

definition lex :: "string \<Rightarrow> token list option" where
  "lex sql =
     (case lex_run Outside sql of
        None \<Rightarrow> None
      | Some (ts, st) \<Rightarrow> map_option (\<lambda>us. ts @ us) (lex_finish st))"

datatype sql_expr = Literal string | ParamRef string

datatype sql_statement =
    Insert string "string list" "sql_expr list list"
  | Update string "(string \<times> sql_expr) list" string sql_expr
  | Select "string list" string string sql_expr

fun word_of :: "token \<Rightarrow> string option" where
  "word_of (Word w) = Some w"
| "word_of t = None"

fun name_of :: "token \<Rightarrow> string option" where
  "name_of (Word w) = Some w"
| "name_of (Quoted w) = Some w"
| "name_of t = None"

fun expr_of :: "token \<Rightarrow> sql_expr option" where
  "expr_of (Lit v) = Some (Literal v)"
| "expr_of (Param p) = Some (ParamRef p)"
| "expr_of t = None"

text \<open>Names separated by commas, and the tokens after them.\<close>

fun parse_names :: "string list \<Rightarrow> token list \<Rightarrow> (string list \<times> token list) option" where
  "parse_names acc [] = None"
| "parse_names acc (t # ts) =
     (case word_of t of
        None \<Rightarrow> None
      | Some c \<Rightarrow>
          (case ts of
             [] \<Rightarrow> Some (acc @ [c], ts)
           | t' # ts' \<Rightarrow> if t' = Comma then parse_names (acc @ [c]) ts' else Some (acc @ [c], ts)))"

text \<open>
  Rows separated by commas up to the end of the statement, each a parenthesised list of
  values separated by commas.
\<close>

datatype parse_state = ExpectRow | ExpectValue | AfterValue | AfterRow

fun parse_rows ::
  "parse_state \<Rightarrow> sql_expr list list \<Rightarrow> sql_expr list \<Rightarrow> token list \<Rightarrow> sql_expr list list option" where
  "parse_rows st rows cur [] = (if st = AfterRow then Some rows else None)"
| "parse_rows st rows cur (t # ts) =
     (case st of
        ExpectRow \<Rightarrow> if t = LParen then parse_rows ExpectValue rows [] ts else None
      | ExpectValue \<Rightarrow>
          (case expr_of t of
             None \<Rightarrow> None
           | Some e \<Rightarrow> parse_rows AfterValue rows (cur @ [e]) ts)
      | AfterValue \<Rightarrow>
          if t = Comma then parse_rows ExpectValue rows cur ts
          else if t = RParen then parse_rows AfterRow (rows @ [cur]) [] ts
          else None
      | AfterRow \<Rightarrow> if t = Comma then parse_rows ExpectRow rows cur ts else None)"

text \<open>Assignments \<open>c = v\<close> separated by commas, and the tokens after them.\<close>

fun parse_assignments ::
  "(string \<times> sql_expr) list \<Rightarrow> token list \<Rightarrow> ((string \<times> sql_expr) list \<times> token list) option" where
  "parse_assignments acc (n # eq # t # ts) =
     (case (word_of n, expr_of t) of
        (Some c, Some e) \<Rightarrow>
          if eq \<noteq> Equals then None
          else (case ts of
                  [] \<Rightarrow> Some (acc @ [(c, e)], ts)
                | t' # ts' \<Rightarrow>
                    if t' = Comma then parse_assignments (acc @ [(c, e)]) ts'
                    else Some (acc @ [(c, e)], ts))
      | _ \<Rightarrow> None)"
| "parse_assignments acc ts = None"

text \<open>\<open>WHERE c = v\<close> at the end of the statement.\<close>

definition parse_where :: "token list \<Rightarrow> (string \<times> sql_expr) option" where
  "parse_where ts =
     (case ts of
        [k, n, eq, t] \<Rightarrow>
          (case (word_of k, word_of n, expr_of t) of
             (Some k', Some c, Some e) \<Rightarrow>
               if k' = ''WHERE'' \<and> eq = Equals then Some (c, e) else None
           | _ \<Rightarrow> None)
      | _ \<Rightarrow> None)"

text \<open>The statements, after their first word.\<close>

definition parse_insert :: "token list \<Rightarrow> sql_statement option" where
  "parse_insert ts =
     (case ts of
        k # t # lp # ts1 \<Rightarrow>
          (case (word_of k, name_of t, parse_names [] ts1) of
             (Some k1, Some tbl, Some (cols, rp # k' # ts2)) \<Rightarrow>
               (case (word_of k', parse_rows ExpectRow [] [] ts2) of
                  (Some k2, Some rows) \<Rightarrow>
                    if k1 = ''INTO'' \<and> lp = LParen \<and> rp = RParen \<and> k2 = ''VALUES'' \<and>
                       list_all (\<lambda>r. length r = length cols) rows
                    then Some (Insert tbl cols rows) else None
                | _ \<Rightarrow> None)
           | _ \<Rightarrow> None)
      | _ \<Rightarrow> None)"

definition parse_update :: "token list \<Rightarrow> sql_statement option" where
  "parse_update ts =
     (case ts of
        t # k # ts1 \<Rightarrow>
          (case (name_of t, word_of k, parse_assignments [] ts1) of
             (Some tbl, Some k1, Some (assigns, rest)) \<Rightarrow>
               (case parse_where rest of
                  None \<Rightarrow> None
                | Some (c, e) \<Rightarrow> if k1 = ''SET'' then Some (Update tbl assigns c e) else None)
           | _ \<Rightarrow> None)
      | _ \<Rightarrow> None)"

definition parse_select :: "token list \<Rightarrow> sql_statement option" where
  "parse_select ts =
     (case parse_names [] ts of
        Some (cols, k # t # rest) \<Rightarrow>
          (case (word_of k, name_of t, parse_where rest) of
             (Some k1, Some tbl, Some (c, e)) \<Rightarrow>
               if k1 = ''FROM'' then Some (Select cols tbl c e) else None
           | _ \<Rightarrow> None)
      | _ \<Rightarrow> None)"

definition parse_statement :: "token list \<Rightarrow> sql_statement option" where
  "parse_statement ts =
     (case ts of
        [] \<Rightarrow> None
      | t # ts' \<Rightarrow>
          (case word_of t of
             None \<Rightarrow> None
           | Some k \<Rightarrow>
               if k = ''INSERT'' then parse_insert ts'
               else if k = ''UPDATE'' then parse_update ts'
               else if k = ''SELECT'' then parse_select ts'
               else None))"

definition parse_sql :: "string \<Rightarrow> sql_statement option" where
  "parse_sql sql = (case lex sql of None \<Rightarrow> None | Some ts \<Rightarrow> parse_statement ts)"

section \<open>What the store is trusted to do\<close>

text \<open>
  The store is not part of the repository; what a read returns after a write is its
  guarantee, not the service's. The guarantee is stated here so that the round trips of
  the service can be stated at all. The table \<open>users\<close> has the columns \<open>id\<close>,
  \<open>name\<close>, \<open>email\<close> and \<open>created_at\<close> and the primary key \<open>id\<close>, as the
  \<open>CREATE TABLE\<close> statement of \<open>connect\<close> declares it; a row is kept as the list of its
  values in that order, under its key. What a statement does to the table is read from
  the text of the statement: the store knows nothing of the service.
\<close>

type_synonym users_table = "sql_value \<rightharpoonup> row"

definition users_schema :: "string list" where
  "users_schema = [''id'', ''name'', ''email'', ''created_at'']"

definition param :: "params \<Rightarrow> string \<Rightarrow> sql_value" where
  "param ps k = (case map_of ps k of None \<Rightarrow> VNull | Some v \<Rightarrow> v)"

fun eval_expr :: "params \<Rightarrow> sql_expr \<Rightarrow> sql_value" where
  "eval_expr ps (Literal s) = VString s"
| "eval_expr ps (ParamRef p) = param ps p"

text \<open>The value that a list of columns with their values gives to one column.\<close>

definition assigned :: "string list \<Rightarrow> sql_value list \<Rightarrow> string \<Rightarrow> sql_value" where
  "assigned cols vals c = (case map_of (zip cols vals) c of None \<Rightarrow> VNull | Some v \<Rightarrow> v)"

definition insert_row :: "params \<Rightarrow> string list \<Rightarrow> users_table \<Rightarrow> sql_expr list \<Rightarrow> users_table" where
  "insert_row ps cols t r =
     (let vals = map (eval_expr ps) r
      in t(assigned cols vals ''id'' \<mapsto> map (assigned cols vals) users_schema))"

definition update_row :: "params \<Rightarrow> (string \<times> sql_expr) list \<Rightarrow> row \<Rightarrow> row" where
  "update_row ps assigns r =
     map (\<lambda>(c, old). case map_of assigns c of None \<Rightarrow> old | Some e \<Rightarrow> eval_expr ps e)
       (zip users_schema r)"

fun exec_statement :: "sql_statement \<Rightarrow> params \<Rightarrow> users_table \<Rightarrow> users_table" where
  "exec_statement (Insert tbl cols rows) ps t =
     (if tbl = ''users'' then foldl (insert_row ps cols) t rows else t)"
| "exec_statement (Update tbl assigns c e) ps t =
     (if tbl = ''users'' \<and> c = ''id'' \<and> map_of assigns ''id'' = None then
        (case t (eval_expr ps e) of
           None \<Rightarrow> t
         | Some r \<Rightarrow> t(eval_expr ps e \<mapsto> update_row ps assigns r))
      else t)"
| "exec_statement (Select cols tbl c e) ps t = t"

definition apply_exec :: "string \<Rightarrow> params \<Rightarrow> users_table \<Rightarrow> users_table" where
  "apply_exec sql ps t = (case parse_sql sql of None \<Rightarrow> t | Some s \<Rightarrow> exec_statement s ps t)"

definition apply_call ::
  "(call list \<Rightarrow> string \<Rightarrow> params \<Rightarrow> js_error + sql_exec_result) \<Rightarrow> call list \<Rightarrow> call \<Rightarrow>
     users_table \<Rightarrow> users_table" where
  "apply_call ex h c t =
     (case c of
        SQLExec sql ps \<Rightarrow> (case ex h sql ps of Inr _ \<Rightarrow> apply_exec sql ps t | Inl _ \<Rightarrow> t)
      | _ \<Rightarrow> t)"

fun table_after ::
  "(call list \<Rightarrow> string \<Rightarrow> params \<Rightarrow> js_error + sql_exec_result) \<Rightarrow> call list \<Rightarrow> call list \<Rightarrow>
     users_table \<Rightarrow> users_table" where
  "table_after ex h [] t = t"
| "table_after ex h (c # cs) t = table_after ex (h @ [c]) cs (apply_call ex h c t)"

definition users_table_of :: "engine \<Rightarrow> call list \<Rightarrow> users_table" where
  "users_table_of eng h = table_after (on_SQLExec eng) [] h Map.empty"

text \<open>
  The rows that a select by the primary key of \<open>users\<close> returns from a table: the
  columns it names, in its order. Of any other text nothing is said.
\<close>

fun select_rows :: "sql_statement \<Rightarrow> params \<Rightarrow> users_table \<Rightarrow> row list option" where
  "select_rows (Select cols tbl c e) ps t =
     (if tbl = ''users'' \<and> c = ''id'' then
        Some (case t (eval_expr ps e) of
                None \<Rightarrow> []
              | Some r \<Rightarrow> [map (assigned users_schema r) cols])
      else None)"
| "select_rows s ps t = None"

definition select_answer :: "string \<Rightarrow> params \<Rightarrow> users_table \<Rightarrow> row list option" where
  "select_answer sql ps t = (case parse_sql sql of None \<Rightarrow> None | Some s \<Rightarrow> select_rows s ps t)"

definition reads_users_table :: "engine \<Rightarrow> bool" where
  "reads_users_table eng \<longleftrightarrow>
     (\<forall>h sql ps rows.
        select_answer sql ps (users_table_of eng h) = Some rows \<longrightarrow>
        on_SQLQuery eng h sql ps = Inr (Some rows))"

text \<open>The keys of the rows that a statement inserts into \<open>users\<close>.\<close>

definition inserted_ids :: "string \<Rightarrow> params \<Rightarrow> sql_value list" where
  "inserted_ids sql ps =
     (case parse_sql sql of
        Some (Insert tbl cols rows) \<Rightarrow>
          if tbl = ''users'' then map (\<lambda>r. assigned cols (map (eval_expr ps) r) ''id'') rows
          else []
      | _ \<Rightarrow> [])"

section \<open>The batches of a run\<close>

text \<open>
  Names for what the theorems about the loop speak of: the number of rounds, the batch
  of round \<open>k\<close>, the call that submits it, the reply of the engine to that call
  (the session has seen the calls before the loop and the earlier batches), the count
  after \<open>m\<close> rounds and the line that round \<open>k\<close> prints.
\<close>

definition num_batches :: "nat \<Rightarrow> nat \<Rightarrow> nat" where
  "num_batches n b = (n + b - 1) div b"

definition batch_at :: "'a list \<Rightarrow> nat \<Rightarrow> nat \<Rightarrow> 'a list" where
  "batch_at cs b k = slice cs (k * b) (k * b + b)"

definition batch_call :: "MBACandidateRecord list \<Rightarrow> nat \<Rightarrow> nat \<Rightarrow> call" where
  "batch_call cs b k = SQLExec (bulkInsertSQL (batch_at cs b k)) []"

definition batch_reply ::
  "engine \<Rightarrow> call list \<Rightarrow> MBACandidateRecord list \<Rightarrow> nat \<Rightarrow> nat \<Rightarrow> js_error + sql_exec_result" where
  "batch_reply eng h cs b k =
     on_SQLExec eng (h @ map (batch_call cs b) [0..<k]) (bulkInsertSQL (batch_at cs b k)) []"

definition inserted_upto :: "engine \<Rightarrow> call list \<Rightarrow> MBACandidateRecord list \<Rightarrow> nat \<Rightarrow> nat \<Rightarrow> nat" where
  "inserted_upto eng h cs b m =
     sum_list (map (\<lambda>k. if isl (batch_reply eng h cs b k) then 0 else length (batch_at cs b k)) [0..<m])"

definition batch_line ::
  "engine \<Rightarrow> call list \<Rightarrow> MBACandidateRecord list \<Rightarrow> nat \<Rightarrow> nat \<Rightarrow> console_line" where
  "batch_line eng h cs b k =
     (case batch_reply eng h cs b k of
        Inl e \<Rightarrow> BatchError (k * b) (message e)
      | Inr _ \<Rightarrow> BulkInserted (inserted_upto eng h cs b (Suc k)) (length cs))"

section \<open>The fields of a row\<close>

text \<open>
  The fields of a record in the order in which the template of a row embeds them, the
  text of one embedded field, the column names in the order of the head of the statement,
  and the tokens that the parts of a statement are expected to read as.
\<close>

definition field_literal :: "string option \<Rightarrow> string" where
  "field_literal v = ''          '' @ [quote] @ escape v @ [quote]"

definition candidate_fields :: "MBACandidateRecord \<Rightarrow> string option list" where
  "candidate_fields candidate =
    [AcademicYear candidate, ProgramID candidate, ProgramShortName candidate, UserId candidate,
     ApplicationID candidate, CandidateName candidate, ApplicantCategoryId candidate, ApplicantCategory candidate,
     AdmissionCategoryId candidate, AdmissionCategory candidate, CasteName candidate, Gender candidate,
     DOB candidate, ReligionID candidate, Religion candidate, MotherTongueId candidate,
     MotherTongue candidate, IncomeId candidate, AnnualFamilyIncome candidate, FinalCandidatureType candidate,
     FinalPHType candidate, FinalDefenceType candidate, LingusticMinority candidate, ReligiousMinority candidate,
     CandidateMobile candidate, Email candidate, AdmittedChoiceCode candidate, AdmittedChoiceCodeDisplay candidate,
     AdmittedCourseName candidate, AdmittedInstituteCode candidate, AdmittedInstituteName candidate, AdmittedInstituteDistrict candidate,
     AdmittedInstituteStatus1 candidate, AdmittedInstituteStatus2 candidate, AdmittedInstituteStatus3 candidate, AdmittedCourseStatus1 candidate,
     AdmittedCourseStatus2 candidate, AdmittedCourseStatus3 candidate, AdmittedCourseGender candidate, SeatTypeAllotted candidate,
     CAPorIL candidate, CAPRoundNo candidate, CAPRoundDetails candidate, TotalFees candidate,
     AdmissionDate candidate, AdmissionUploadDate candidate, StateMeritSLGMN candidate, AllIndiaMeritNo candidate,
     MeritMarks candidate, CAPAdmissionTFWS candidate, CAPAdmissionEWS candidate, CAPAdmissionOrphan candidate,
     NON_CAP candidate, MotherName candidate, Status candidate, StatusDetails candidate]"


definition field_values :: "MBACandidateRecord \<Rightarrow> string list" where
  "field_values candidate = map or_empty (candidate_fields candidate)"

definition insert_columns :: "string list" where
  "insert_columns =
    [''academic_year'', ''program_id'', ''program_short_name'', ''user_id'',
     ''application_id'', ''candidate_name'', ''applicant_category_id'', ''applicant_category'',
     ''admission_category_id'', ''admission_category'', ''caste_name'', ''gender'', ''dob'',
     ''religion_id'', ''religion'', ''mother_tongue_id'', ''mother_tongue'', ''income_id'',
     ''annual_family_income'', ''final_candidature_type'', ''final_ph_type'',
     ''final_defence_type'', ''lingustic_minority'', ''religious_minority'',
     ''candidate_mobile'', ''email'', ''admitted_choice_code'',
     ''admitted_choice_code_display'', ''admitted_course_name'', ''admitted_institute_code'',
     ''admitted_institute_name'', ''admitted_institute_district'',
     ''admitted_institute_status1'', ''admitted_institute_status2'',
     ''admitted_institute_status3'', ''admitted_course_status1'', ''admitted_course_status2'',
     ''admitted_course_status3'', ''admitted_course_gender'', ''seat_type_allotted'',
     ''cap_or_il'', ''cap_round_no'', ''cap_round_details'', ''total_fees'',
     ''admission_date'', ''admission_upload_date'', ''state_merit_slgmn'',
     ''all_india_merit_no'', ''merit_marks'', ''cap_admission_tfws'', ''cap_admission_ews'',
     ''cap_admission_orphan'', ''non_cap'', ''mother_name'', ''status'', ''status_details'']"

fun names_tokens :: "string list \<Rightarrow> token list" where
  "names_tokens [] = []"
| "names_tokens [c] = [Word c]"
| "names_tokens (c # d # cs) = Word c # Comma # names_tokens (d # cs)"

fun value_tokens :: "string list \<Rightarrow> token list" where
  "value_tokens [] = []"
| "value_tokens [v] = [Lit v]"
| "value_tokens (v # w # vs) = Lit v # Comma # value_tokens (w # vs)"

definition row_tokens :: "string list \<Rightarrow> token list" where
  "row_tokens vs = LParen # value_tokens vs @ [RParen]"

fun rows_tokens :: "string list list \<Rightarrow> token list" where
  "rows_tokens [] = []"
| "rows_tokens [r] = row_tokens r"
| "rows_tokens (r # s # rs) = row_tokens r @ Comma # rows_tokens (s # rs)"

definition head_tokens :: "token list" where
  "head_tokens =
     [Word ''INSERT'', Word ''INTO'', Word ''mba_students'', LParen] @
     names_tokens insert_columns @ [RParen, Word ''VALUES'']"

section \<open>Example data\<close>

definition example_candidate :: "string \<Rightarrow> string \<Rightarrow> MBACandidateRecord" where
  "example_candidate app nm =
    \<lparr>AcademicYear = Some ''2024-25'', ProgramID = None, ProgramShortName = None,
     UserId = None, ApplicationID = Some app, CandidateName = Some nm,
     ApplicantCategoryId = None, ApplicantCategory = None, AdmissionCategoryId = None,
     AdmissionCategory = None, CasteName = None, Gender = Some ''F'', DOB = None,
     ReligionID = None, Religion = None, MotherTongueId = None, MotherTongue = None,
     IncomeId = None, AnnualFamilyIncome = None, FinalCandidatureType = None,
     FinalPHType = None, FinalDefenceType = None, LingusticMinority = None,
     ReligiousMinority = None, CandidateMobile = None, Email = None, AdmittedChoiceCode = None,
     AdmittedChoiceCodeDisplay = None, AdmittedCourseName = None, AdmittedInstituteCode = None,
     AdmittedInstituteName = None, AdmittedInstituteDistrict = None,
     AdmittedInstituteStatus1 = None, AdmittedInstituteStatus2 = None,
     AdmittedInstituteStatus3 = None, AdmittedCourseStatus1 = None,
     AdmittedCourseStatus2 = None, AdmittedCourseStatus3 = None, AdmittedCourseGender = None,
     SeatTypeAllotted = None, CAPorIL = None, CAPRoundNo = None, CAPRoundDetails = None,
     TotalFees = None, AdmissionDate = None, AdmissionUploadDate = None,
     StateMeritSLGMN = None, AllIndiaMeritNo = None, MeritMarks = None,
     CAPAdmissionTFWS = None, CAPAdmissionEWS = None, CAPAdmissionOrphan = None,
     NON_CAP = None, MotherName = None, Status = Some ''A'', StatusDetails = None\<rparr>"

definition accepting_engine :: engine where
  "accepting_engine =
     \<lparr>on_login = (\<lambda>h u p. Inr ()),
      on_createDatabase = (\<lambda>h d. Inr ()),
      on_useDatabase = (\<lambda>h d. Inr ()),
      on_SQLExec = (\<lambda>h sql ps. Inr (ExecResult [length h])),
      on_SQLQuery = (\<lambda>h sql ps. Inr (Some [])),
      on_logout = (\<lambda>h. Inr ())\<rparr>"

definition rejecting_at :: "nat \<Rightarrow> engine" where
  "rejecting_at k =
     accepting_engine\<lparr>on_SQLExec :=
       (\<lambda>h sql ps. if length h = k then Inl (Error ''statement rejected'')
          else Inr (ExecResult [length h]))\<rparr>"

definition fresh_state :: run_state where
  "fresh_state = \<lparr>console = [], calls = []\<rparr>"

definition three_candidates :: "MBACandidateRecord list" where
  "three_candidates =
     [example_candidate ''A1'' ''Asha'', example_candidate ''A2'' ''Bala'',
      example_candidate ''A3'' ''Chitra'']"

definition example_file :: "js_error + JSONExportData list" where
  "example_file =
     Inr [\<lparr>type' = ''header'', name' = None, version = Some ''5.2.1'', comment = None,
            database = None, data' = None\<rparr>,
          \<lparr>type' = ''table'', name' = Some ''mba_candidate_flat_data_2024'', version = None,
            comment = None, database = Some ''mba'', data' = Some three_candidates\<rparr>]"

definition queries_failing :: engine where
  "queries_failing = accepting_engine\<lparr>on_SQLQuery := (\<lambda>h sql ps. Inl (Error ''query failed''))\<rparr>"

text \<open>
  An engine that accepts every statement and answers the select by id from the table
  its statements have built.
\<close>

definition table_engine :: engine where
  "table_engine =
     accepting_engine\<lparr>on_SQLQuery :=
       (\<lambda>h sql ps.
          case select_answer sql ps (table_after (on_SQLExec accepting_engine) [] h Map.empty) of
            None \<Rightarrow> Inr (Some [])
          | Some rows \<Rightarrow> Inr (Some rows))\<rparr>"

definition alice :: user_input where
  "alice = \<lparr>id' = ''user001'', name = ''Alice Johnson'', email = ''alice@example.com''\<rparr>"

definition after_alice :: run_state where
  "after_alice = snd (createUser table_engine alice 1700000000000 fresh_state)"

definition empty_export :: "js_error + JSONExportData list" where
  "empty_export =
     Inr [\<lparr>type' = ''table'', name' = Some ''mba_candidate_flat_data_2024'', version = None,
            comment = None, database = Some ''mba'', data' = Some []\<rparr>]"

section \<open>The import loop\<close>

lemma num_batches_bounds:
  assumes "0 < b"
  shows "n \<le> num_batches n b * b" and "0 < n \<Longrightarrow> (num_batches n b - 1) * b < n"
proof -
  let ?m = "n + b - 1"
  have m: "?m = (?m div b) * b + ?m mod b" by simp
  have r: "?m mod b < b" using assms by simp
  show "n \<le> num_batches n b * b"
    unfolding num_batches_def using m r assms by linarith
  show "(num_batches n b - 1) * b < n" if "0 < n"
  proof -
    have "b \<le> ?m" using that assms by linarith
    then have "1 \<le> ?m div b" using assms by (simp add: div_greater_zero_iff Suc_le_eq)
    then have "(?m div b - 1) * b = (?m div b) * b - b" by (simp add: diff_mult_distrib)
    moreover have "(?m div b) * b \<le> ?m" by simp
    ultimately show ?thesis unfolding num_batches_def using that assms by linarith
  qed
qed

lemma num_batches_ceiling:
  assumes "0 < b"
  shows "num_batches n b = nat \<lceil>real n / real b\<rceil>"
proof (cases "n = 0")
  case True
  then show ?thesis using assms by (simp add: num_batches_def)
next
  case False
  let ?q = "num_batches n b"
  have 1: "real n \<le> real ?q * real b"
    using num_batches_bounds(1)[OF assms, of n] by (metis of_nat_le_iff of_nat_mult)
  have 2: "real (?q - 1) * real b < real n"
    using num_batches_bounds(2)[OF assms, of n] False by (metis of_nat_less_iff of_nat_mult neq0_conv)
  have q: "0 < ?q" using 1 False assms by (cases "?q = 0") auto
  have "\<lceil>real n / real b\<rceil> = int ?q"
  proof (rule ceiling_unique)
    show "of_int (int ?q) - 1 < real n / real b"
      using 2 q assms by (simp add: pos_less_divide_eq)
    show "real n / real b \<le> of_int (int ?q)"
      using 1 assms by (simp add: pos_divide_le_eq)
  qed
  then show ?thesis by simp
qed

lemma num_batches_step:
  assumes "0 < b" "0 < m"
  shows "num_batches m b = Suc (num_batches (m - b) b)"
proof (cases "b \<le> m")
  case True
  then have "m + b - 1 = (m - b + b - 1) + b" using assms by linarith
  then show ?thesis unfolding num_batches_def using assms by (metis div_add_self2 Suc_eq_plus1 less_numeral_extra(3))
next
  case False
  then have "(m + b - 1) div b = 1" using assms by (intro div_nat_eqI) auto
  moreover have "(m - b + b - 1) div b = 0" using False assms by simp
  ultimately show ?thesis unfolding num_batches_def by simp
qed

lemma import_loop_fold:
  assumes "0 < b"
  shows "import_loop eng cs b i s =
     Some (foldl (\<lambda>s i. import_batch eng cs b i s) s
        (map (\<lambda>k. i + k * b) [0..<num_batches (length cs - i) b]))"
proof (induction "length cs - i" arbitrary: i s rule: less_induct)
  case less
  show ?case
  proof (cases "i < length cs")
    case False
    then have "num_batches (length cs - i) b = 0" using assms by (simp add: num_batches_def)
    with False show ?thesis by (subst import_loop.simps) simp
  next
    case True
    then have nb: "num_batches (length cs - i) b = Suc (num_batches (length cs - (i + b)) b)"
      using num_batches_step[OF assms, of "length cs - i"] by simp
    have lt: "length cs - (i + b) < length cs - i" using True assms by linarith
    have upt: "[0..<Suc m] = 0 # map Suc [0..<m]" for m
      by (simp add: upt_conv_Cons map_Suc_upt del: upt_Suc)
    show ?thesis
      apply (subst import_loop.simps)
      apply (simp only: True if_True less.hyps[OF lt] nb upt)
      apply (simp add: comp_def ac_simps)
      done
  qed
qed

lemma batch_at_take_drop: "batch_at cs b k = take b (drop (k * b) cs)"
  by (simp add: batch_at_def slice_def)

lemma import_batch_step:
  "import_batch eng cs b (k * b) (c, st) =
     (case on_SQLExec eng (calls st) (bulkInsertSQL (batch_at cs b k)) [] of
        Inl e \<Rightarrow>
          (c, st\<lparr>console := console st @ [BatchError (k * b) (message e)],
                 calls := calls st @ [batch_call cs b k]\<rparr>)
      | Inr r \<Rightarrow>
          (c + length (batch_at cs b k),
           st\<lparr>console := console st @ [BulkInserted (c + length (batch_at cs b k)) (length cs)],
               calls := calls st @ [batch_call cs b k]\<rparr>))"
  by (simp add: import_batch_def client_SQLExec_def console_log_def batch_call_def
      batch_at_def Let_def split: sum.splits)

lemma run_batches:
  "foldl (\<lambda>s k. import_batch eng cs b (k * b) s) (0, st0) [0..<m] =
     (inserted_upto eng (calls st0) cs b m,
      st0\<lparr>console := console st0 @ map (batch_line eng (calls st0) cs b) [0..<m],
          calls := calls st0 @ map (batch_call cs b) [0..<m]\<rparr>)"
proof (induction m)
  case 0
  show ?case by (simp add: inserted_upto_def)
next
  case (Suc m)
  have ups: "inserted_upto eng (calls st0) cs b (Suc m) =
      inserted_upto eng (calls st0) cs b m +
      (if isl (batch_reply eng (calls st0) cs b m) then 0 else length (batch_at cs b m))"
    by (simp add: inserted_upto_def)
  have rep: "on_SQLExec eng (calls st0 @ map (batch_call cs b) [0..<m])
      (bulkInsertSQL (batch_at cs b m)) [] = batch_reply eng (calls st0) cs b m"
    by (simp add: batch_reply_def)
  show ?case
  proof (cases "batch_reply eng (calls st0) cs b m")
    case (Inl e)
    then show ?thesis
      by (simp add: Suc import_batch_step rep batch_line_def ups)
  next
    case (Inr r)
    then show ?thesis
      by (simp add: Suc import_batch_step rep batch_line_def ups)
  qed
qed

lemma import_loop_result:
  assumes "0 < b"
  shows "import_loop eng cs b 0 (0, st0) =
     Some (inserted_upto eng (calls st0) cs b (num_batches (length cs) b),
       st0\<lparr>console := console st0 @
              map (batch_line eng (calls st0) cs b) [0..<num_batches (length cs) b],
           calls := calls st0 @ map (batch_call cs b) [0..<num_batches (length cs) b]\<rparr>)"
  using import_loop_fold[OF assms, of eng cs 0 "(0, st0)"] run_batches[of eng cs b st0]
  by (simp add: foldl_map)

lemma concat_batches: "concat (map (batch_at cs b) [0..<m]) = take (m * b) cs"
proof (induction m)
  case 0
  show ?case by simp
next
  case (Suc m)
  have "take (m * b) cs @ take b (drop (m * b) cs) = take (m * b + b) cs"
    by (simp add: take_add)
  with Suc show ?case by (simp add: batch_at_take_drop add.commute)
qed

lemma concat_all_batches:
  assumes "0 < b"
  shows "concat (map (batch_at cs b) [0..<num_batches (length cs) b]) = cs"
  using num_batches_bounds(1)[OF assms, of "length cs"] by (simp add: concat_batches)

lemma length_batch_at: "length (batch_at cs b k) = min b (length cs - k * b)"
  by (simp add: batch_at_take_drop)

lemma batch_start_in_range:
  assumes "0 < b" "k < num_batches (length cs) b"
  shows "k * b < length cs"
proof -
  have n: "0 < length cs" using assms by (cases "length cs = 0") (auto simp: num_batches_def)
  have "k \<le> num_batches (length cs) b - 1" using assms by linarith
  then have "k * b \<le> (num_batches (length cs) b - 1) * b" by (rule mult_le_mono1)
  with num_batches_bounds(2)[OF assms(1) n] show ?thesis by linarith
qed

lemma num_batches_eq:
  assumes "0 < b"
  shows "num_batches n b = (if n mod b = 0 then n div b else Suc (n div b))"
proof -
  have n: "b * (n div b) + n mod b = n" by simp
  have r: "n mod b < b" using assms by simp
  have s: "b * Suc k = b * k + b" for k by simp
  show ?thesis
  proof (cases "n mod b = 0")
    case True
    have "(n + b - 1) div b = n div b"
    proof (rule div_nat_eqI)
      show "b * (n div b) \<le> n + b - 1" using n True assms by linarith
      show "n + b - 1 < b * Suc (n div b)" unfolding s using n True assms by linarith
    qed
    with True show ?thesis by (simp add: num_batches_def)
  next
    case False
    have "(n + b - 1) div b = Suc (n div b)"
    proof (rule div_nat_eqI)
      show "b * Suc (n div b) \<le> n + b - 1" unfolding s using n False by linarith
      show "n + b - 1 < b * Suc (Suc (n div b))" unfolding s using n r by linarith
    qed
    with False show ?thesis by (simp add: num_batches_def)
  qed
qed

lemma length_last_batch:
  assumes "0 < b" "0 < length cs"
  shows "length (batch_at cs b (num_batches (length cs) b - 1)) =
     (if length cs mod b = 0 then b else length cs mod b)"
proof -
  let ?n = "length cs"
  have n: "?n = ?n div b * b + ?n mod b" by simp
  show ?thesis
  proof (cases "?n mod b = 0")
    case True
    then have q: "0 < ?n div b" using assms by (metis n add.right_neutral mult_is_0 neq0_conv)
    have "(?n div b - 1) * b = ?n - b" using True n q by (simp add: diff_mult_distrib)
    moreover have "b \<le> ?n" using q assms by (simp add: div_greater_zero_iff)
    ultimately show ?thesis using True assms by (simp add: length_batch_at num_batches_eq)
  next
    case False
    have "?n - ?n div b * b = ?n mod b" using n by linarith
    then show ?thesis using False assms by (simp add: length_batch_at num_batches_eq)
  qed
qed

lemma sum_length_batches:
  assumes "0 < b"
  shows "sum_list (map (\<lambda>k. length (batch_at cs b k)) [0..<num_batches (length cs) b]) = length cs"
proof -
  have "length (concat (map (batch_at cs b) [0..<num_batches (length cs) b])) = length cs"
    by (simp only: concat_all_batches[OF assms])
  then show ?thesis by (simp add: length_concat comp_def)
qed

lemma sum_list_all_but_one:
  assumes "j < m" and "\<And>k. k < m \<Longrightarrow> f k = (if k = j then 0 else g k)"
  shows "sum_list (map f [0..<m]) = sum_list (map g [0..<m]) - (g j :: nat)"
proof -
  have f: "sum_list (map f [0..<m]) = sum f {0..<m}"
    by (simp add: interv_sum_list_conv_sum_set_nat)
  have g: "sum_list (map g [0..<m]) = sum g {0..<m}"
    by (simp add: interv_sum_list_conv_sum_set_nat)
  have "sum f {0..<m} = sum f ({0..<m} - {j}) + f j"
    using assms(1) by (simp add: sum.remove add.commute)
  also have "sum f ({0..<m} - {j}) = sum g ({0..<m} - {j})"
    by (rule sum.cong) (use assms(2) in auto)
  also have "f j = 0" using assms by simp
  finally have "sum f {0..<m} = sum g ({0..<m} - {j})" by simp
  moreover have "sum g {0..<m} = g j + sum g ({0..<m} - {j})"
    using assms(1) by (simp add: sum.remove)
  ultimately show ?thesis using f g by simp
qed

lemma sum_list_all_ok:
  assumes "\<And>k. k < m \<Longrightarrow> f k = g k"
  shows "sum_list (map f [0..<m]) = sum_list (map g [0..<m])"
  by (rule arg_cong[where f = sum_list]) (use assms in auto)

lemma import_loop_empty: "import_loop eng [] b 0 s = Some s"
  by (subst import_loop.simps) simp

lemma batch_reply_rejecting_at:
  "batch_reply (rejecting_at j) [] cs b k =
     (if k = j then Inl (Error ''statement rejected'') else Inr (ExecResult [k]))"
  by (simp add: batch_reply_def rejecting_at_def accepting_engine_def)

lemma batch_reply_accepting:
  "batch_reply accepting_engine h cs b k = Inr (ExecResult [length h + k])"
  by (simp add: batch_reply_def accepting_engine_def)

subsection \<open>Partition into batches\<close>

text \<open>
  Claim C1. For a batch size \<open>b \<ge> 1\<close> (the source fixes \<open>b = 1000\<close>) and whatever the
  engine replies, the loop ends and has submitted one statement per batch, in order: the
  batches are the \<open>\<lceil>n / b\<rceil>\<close> consecutive slices of the dataset, none empty and none longer
  than \<open>b\<close>; the last one has \<open>n mod b\<close> records, or \<open>b\<close> when \<open>b\<close> divides
  \<open>n\<close>; put end to end they are the dataset, so their lengths add up to \<open>n\<close>.
\<close>

theorem batches_partition_dataset:
  assumes "1 \<le> b"
  shows "\<exists>cnt st. import_loop eng cs b 0 (0, st0) = Some (cnt, st) \<and>
     calls st = calls st0 @ map (batch_call cs b) [0..<num_batches (length cs) b] \<and>
     num_batches (length cs) b = nat \<lceil>real (length cs) / real b\<rceil> \<and>
     (\<forall>k < num_batches (length cs) b.
        batch_at cs b k = take b (drop (k * b) cs) \<and>
        batch_at cs b k \<noteq> [] \<and> length (batch_at cs b k) \<le> b) \<and>
     (cs \<noteq> [] \<longrightarrow>
        length (batch_at cs b (num_batches (length cs) b - 1)) =
          (if length cs mod b = 0 then b else length cs mod b)) \<and>
     concat (map (batch_at cs b) [0..<num_batches (length cs) b]) = cs \<and>
     sum_list (map (\<lambda>k. length (batch_at cs b k)) [0..<num_batches (length cs) b]) = length cs"
proof -
  let ?nb = "num_batches (length cs) b"
  have b: "0 < b" using assms by simp
  have each: "batch_at cs b k = take b (drop (k * b) cs) \<and>
        batch_at cs b k \<noteq> [] \<and> length (batch_at cs b k) \<le> b" if "k < ?nb" for k
  proof -
    have "k * b < length cs" using b that by (rule batch_start_in_range)
    then have "0 < length (batch_at cs b k)" using b by (simp add: length_batch_at)
    then show ?thesis by (auto simp: batch_at_take_drop)
  qed
  have last: "length (batch_at cs b (?nb - 1)) =
      (if length cs mod b = 0 then b else length cs mod b)" if "cs \<noteq> []"
    using length_last_batch[OF b, of cs] that by simp
  have cc: "concat (map (batch_at cs b) [0..<?nb]) = cs"
    using b by (rule concat_all_batches)
  have "length (concat (map (batch_at cs b) [0..<?nb])) = length cs"
    by (simp only: cc)
  then have total: "sum_list (map (\<lambda>k. length (batch_at cs b k)) [0..<?nb]) = length cs"
    by (simp add: length_concat comp_def)
  let ?st = "st0\<lparr>console := console st0 @ map (batch_line eng (calls st0) cs b) [0..<?nb],
      calls := calls st0 @ map (batch_call cs b) [0..<?nb]\<rparr>"
  show ?thesis
  proof (intro exI conjI)
    show "import_loop eng cs b 0 (0, st0) = Some (inserted_upto eng (calls st0) cs b ?nb, ?st)"
      using b by (rule import_loop_result)
    show "calls ?st = calls st0 @ map (batch_call cs b) [0..<?nb]" by simp
    show "?nb = nat \<lceil>real (length cs) / real b\<rceil>" using b by (rule num_batches_ceiling)
    show "\<forall>k<?nb. batch_at cs b k = take b (drop (k * b) cs) \<and>
        batch_at cs b k \<noteq> [] \<and> length (batch_at cs b k) \<le> b"
      using each by blast
    show "cs \<noteq> [] \<longrightarrow> length (batch_at cs b (?nb - 1)) =
        (if length cs mod b = 0 then b else length cs mod b)"
      using last by blast
    show "concat (map (batch_at cs b) [0..<?nb]) = cs" by (rule cc)
    show "sum_list (map (\<lambda>k. length (batch_at cs b k)) [0..<?nb]) = length cs" by (rule total)
  qed
qed

theorem batches_partition_dataset_witness:
  "(1::nat) \<le> 2 \<and>
   (\<exists>cnt st.
      import_loop accepting_engine
        [example_candidate ''A1'' ''Asha'', example_candidate ''A2'' ''Bala'',
         example_candidate ''A3'' ''Chitra''] 2 0 (0, fresh_state) = Some (cnt, st) \<and>
      calls st =
        [SQLExec (bulkInsertSQL [example_candidate ''A1'' ''Asha'', example_candidate ''A2'' ''Bala'']) [],
         SQLExec (bulkInsertSQL [example_candidate ''A3'' ''Chitra'']) []]) \<and>
   length (batch_at [example_candidate ''A1'' ''Asha'', example_candidate ''A2'' ''Bala'',
      example_candidate ''A3'' ''Chitra''] 2 (num_batches 3 2 - 1)) = 3 mod 2"
  using batches_partition_dataset
    [of 2 accepting_engine
      "[example_candidate ''A1'' ''Asha'', example_candidate ''A2'' ''Bala'',
        example_candidate ''A3'' ''Chitra'']" fresh_state]
  by (simp add: num_batches_def batch_call_def batch_at_def slice_def fresh_state_def)

subsection \<open>A batch that fails\<close>

text \<open>
  Claim C2. For a batch size \<open>b \<ge> 1\<close> and every engine, the loop ends with every batch
  submitted, so no failure stops the run. Each round prints one line; for a batch whose
  statement fails it is the error line with the offset \<open>k * b\<close> at which the batch starts
  and the message of the error. The count is the number of records in the batches that
  did not fail. When exactly one batch fails, the count is the size of the dataset less
  the size of that batch.
\<close>

theorem failed_batch_is_skipped:
  assumes "1 \<le> b"
  shows "\<exists>cnt st. import_loop eng cs b 0 (0, st0) = Some (cnt, st) \<and>
     calls st = calls st0 @ map (batch_call cs b) [0..<num_batches (length cs) b] \<and>
     length (console st) = length (console st0) + num_batches (length cs) b \<and>
     (\<forall>k < num_batches (length cs) b. \<forall>e.
        batch_reply eng (calls st0) cs b k = Inl e \<longrightarrow>
        console st ! (length (console st0) + k) = BatchError (k * b) (message e)) \<and>
     cnt = sum_list (map (\<lambda>k. if isl (batch_reply eng (calls st0) cs b k) then 0
                               else length (batch_at cs b k)) [0..<num_batches (length cs) b]) \<and>
     (\<forall>j < num_batches (length cs) b.
        (\<forall>k < num_batches (length cs) b. isl (batch_reply eng (calls st0) cs b k) \<longleftrightarrow> k = j) \<longrightarrow>
        cnt = length cs - length (batch_at cs b j))"
proof -
  let ?nb = "num_batches (length cs) b"
  let ?h = "calls st0"
  have b: "0 < b" using assms by simp
  let ?st = "st0\<lparr>console := console st0 @ map (batch_line eng ?h cs b) [0..<?nb],
      calls := ?h @ map (batch_call cs b) [0..<?nb]\<rparr>"
  let ?cnt = "inserted_upto eng ?h cs b ?nb"
  have line: "console ?st ! (length (console st0) + k) = BatchError (k * b) (message e)"
    if "k < ?nb" "batch_reply eng ?h cs b k = Inl e" for k e
    using that by (simp add: nth_append batch_line_def)
  have one: "?cnt = length cs - length (batch_at cs b j)"
    if j: "j < ?nb" and only: "\<forall>k < ?nb. isl (batch_reply eng ?h cs b k) \<longleftrightarrow> k = j" for j
  proof -
    have "?cnt = sum_list (map (\<lambda>k. length (batch_at cs b k)) [0..<?nb]) - length (batch_at cs b j)"
      unfolding inserted_upto_def
      by (rule sum_list_all_but_one[OF j]) (use only in auto)
    then show ?thesis by (simp only: sum_length_batches[OF b])
  qed
  show ?thesis
  proof (intro exI conjI)
    show "import_loop eng cs b 0 (0, st0) = Some (?cnt, ?st)"
      using b by (rule import_loop_result)
    show "calls ?st = ?h @ map (batch_call cs b) [0..<?nb]" by simp
    show "length (console ?st) = length (console st0) + ?nb" by simp
    show "\<forall>k<?nb. \<forall>e. batch_reply eng ?h cs b k = Inl e \<longrightarrow>
        console ?st ! (length (console st0) + k) = BatchError (k * b) (message e)"
      using line by blast
    show "?cnt = sum_list (map (\<lambda>k. if isl (batch_reply eng ?h cs b k) then 0
                               else length (batch_at cs b k)) [0..<?nb])"
      by (simp add: inserted_upto_def)
    show "\<forall>j<?nb. (\<forall>k<?nb. isl (batch_reply eng ?h cs b k) \<longleftrightarrow> k = j) \<longrightarrow>
        ?cnt = length cs - length (batch_at cs b j)"
      using one by blast
  qed
qed

theorem failed_batch_is_skipped_witness:
  "(1::nat) \<le> 1 \<and>
   (\<exists>cnt st. import_loop (rejecting_at 1) three_candidates 1 0 (0, fresh_state) = Some (cnt, st) \<and>
      length (calls st) = 3 \<and>
      console st ! 1 = BatchError 1 ''statement rejected'' \<and>
      cnt = 2)"
proof -
  have nb: "num_batches (length three_candidates) 1 = 3"
    by (simp add: num_batches_def three_candidates_def)
  obtain cnt st where
    run: "import_loop (rejecting_at 1) three_candidates 1 0 (0, fresh_state) = Some (cnt, st)" and
    cs: "calls st = calls fresh_state @ map (batch_call three_candidates 1) [0..<3]" and
    line: "\<forall>k<3. \<forall>e. batch_reply (rejecting_at 1) (calls fresh_state) three_candidates 1 k = Inl e \<longrightarrow>
        console st ! (length (console fresh_state) + k) = BatchError (k * 1) (message e)" and
    one: "\<forall>j<3. (\<forall>k<3. isl (batch_reply (rejecting_at 1) (calls fresh_state) three_candidates 1 k) \<longleftrightarrow> k = j) \<longrightarrow>
        cnt = length three_candidates - length (batch_at three_candidates 1 j)"
    using failed_batch_is_skipped[of 1 "rejecting_at 1" three_candidates fresh_state]
    unfolding nb by auto
  have "console st ! 1 = BatchError 1 ''statement rejected''"
    using line[rule_format, of 1 "Error ''statement rejected''"]
    by (simp add: fresh_state_def batch_reply_rejecting_at)
  moreover have "cnt = 2"
    using one[rule_format, of 1]
    by (simp add: fresh_state_def batch_reply_rejecting_at three_candidates_def
        batch_at_def slice_def)
  moreover have "length (calls st) = 3" using cs by (simp add: fresh_state_def)
  ultimately show ?thesis using run by simp
qed

section \<open>The verification pass\<close>

lemma import_setup_ignores_queries:
  "import_setup (eng\<lparr>on_SQLQuery := q\<rparr>) file st = import_setup eng file st"
proof -
  let ?eng = "eng\<lparr>on_SQLQuery := q\<rparr>"
  have 1: "client_login ?eng = client_login eng"
    by (intro ext) (simp add: client_login_def)
  have 2: "create_or_use_database ?eng = create_or_use_database eng"
    by (intro ext) (simp add: create_or_use_database_def client_createDatabase_def)
  have 3: "client_useDatabase ?eng = client_useDatabase eng"
    by (intro ext) (simp add: client_useDatabase_def)
  have 4: "client_SQLExec ?eng = client_SQLExec eng"
    by (intro ext) (simp add: client_SQLExec_def)
  show ?thesis unfolding import_setup_def 1 2 3 4 by (rule refl)
qed

lemma import_batch_ignores_queries:
  "import_batch (eng\<lparr>on_SQLQuery := q\<rparr>) cs b i s = import_batch eng cs b i s"
  by (simp add: import_batch_def client_SQLExec_def)

lemma import_loop_ignores_queries:
  assumes "0 < b"
  shows "import_loop (eng\<lparr>on_SQLQuery := q\<rparr>) cs b i s = import_loop eng cs b i s"
  by (simp add: import_loop_fold[OF assms] import_batch_ignores_queries)

lemma console_log_sel:
  "calls (console_log l st) = calls st" "console (console_log l st) = console st @ [l]"
  by (simp_all add: console_log_def)

lemma count_records_effect:
  "\<exists>ls. count_records eng st =
        st\<lparr>console := console st @ ls, calls := calls st @ [SQLQuery countSQL []]\<rparr> \<and>
      (\<forall>n. Imported n \<notin> set ls) \<and>
      (\<forall>e. on_SQLQuery eng (calls st) countSQL [] = Inl e \<longrightarrow> CountFailed (message e) \<in> set ls)"
proof (cases "on_SQLQuery eng (calls st) countSQL []")
  case (Inl e)
  then have "count_records eng st =
      st\<lparr>console := console st @ [CountFailed (message e)],
         calls := calls st @ [SQLQuery countSQL []]\<rparr>"
    by (simp add: count_records_def client_SQLQuery_def console_log_def)
  with Inl show ?thesis by (intro exI[of _ "[CountFailed (message e)]"]) simp
next
  case (Inr res)
  show ?thesis
  proof (cases "\<exists>r rs. res = Some (r # rs)")
    case True
    then obtain r rs where "res = Some (r # rs)" by blast
    with Inr have "count_records eng st =
        st\<lparr>console := console st @ [TotalRecords (value_or r 0 (VInt 0))],
           calls := calls st @ [SQLQuery countSQL []]\<rparr>"
      by (simp add: count_records_def client_SQLQuery_def console_log_def)
    with Inr show ?thesis by (intro exI[of _ "[TotalRecords (value_or r 0 (VInt 0))]"]) simp
  next
    case False
    with Inr have "count_records eng st =
        st\<lparr>console := console st @ [], calls := calls st @ [SQLQuery countSQL []]\<rparr>"
      by (auto simp: count_records_def client_SQLQuery_def split: option.splits list.splits)
    with Inr show ?thesis by (intro exI[of _ "[]"]) simp
  qed
qed

lemma sample_records_effect:
  "\<exists>ls. sample_records eng st =
        st\<lparr>console := console st @ ls, calls := calls st @ [SQLQuery sampleSQL []]\<rparr> \<and>
      (\<forall>n. Imported n \<notin> set ls) \<and>
      (\<forall>e. on_SQLQuery eng (calls st) sampleSQL [] = Inl e \<longrightarrow> SampleFailed (message e) \<in> set ls)"
proof (cases "on_SQLQuery eng (calls st) sampleSQL []")
  case (Inl e)
  then have "sample_records eng st =
      st\<lparr>console := console st @ [SampleFailed (message e)],
         calls := calls st @ [SQLQuery sampleSQL []]\<rparr>"
    by (simp add: sample_records_def client_SQLQuery_def console_log_def)
  with Inl show ?thesis by (intro exI[of _ "[SampleFailed (message e)]"]) simp
next
  case (Inr res)
  show ?thesis
  proof (cases "\<exists>r rs. res = Some (r # rs)")
    case True
    then obtain r rs where "res = Some (r # rs)" by blast
    with Inr have eq: "sample_records eng st =
        st\<lparr>console := console st @ map sample_line (enumerate 0 (r # rs)),
           calls := calls st @ [SQLQuery sampleSQL []]\<rparr>"
      by (simp add: sample_records_def client_SQLQuery_def)
    have ni: "\<forall>n. Imported n \<notin> set (map sample_line (enumerate 0 (r # rs)))"
      by (auto simp: sample_line_def)
    have nf: "\<forall>e. on_SQLQuery eng (calls st) sampleSQL [] = Inl e \<longrightarrow>
        SampleFailed (message e) \<in> set (map sample_line (enumerate 0 (r # rs)))"
      using Inr by simp
    show ?thesis using eq ni nf by blast
  next
    case False
    with Inr have "sample_records eng st =
        st\<lparr>console := console st @ [NoSampleRecords], calls := calls st @ [SQLQuery sampleSQL []]\<rparr>"
      by (auto simp: sample_records_def client_SQLQuery_def console_log_def
          split: option.splits list.splits)
    with Inr show ?thesis by (intro exI[of _ "[NoSampleRecords]"]) simp
  qed
qed

lemma verify_import_effect:
  "\<exists>ls. console (verify_import eng st) = console st @ ls \<and>
      (\<forall>n. Imported n \<notin> set ls) \<and>
      (\<forall>e. on_SQLQuery eng (calls st) countSQL [] = Inl e \<longrightarrow> CountFailed (message e) \<in> set ls) \<and>
      (\<forall>e. on_SQLQuery eng (calls st @ [SQLQuery countSQL []]) sampleSQL [] = Inl e \<longrightarrow>
         SampleFailed (message e) \<in> set ls)"
proof -
  let ?s1 = "console_log Verifying st"
  obtain l1 where c:
    "count_records eng ?s1 = ?s1\<lparr>console := console ?s1 @ l1, calls := calls ?s1 @ [SQLQuery countSQL []]\<rparr>"
    "\<forall>n. Imported n \<notin> set l1"
    "\<forall>e. on_SQLQuery eng (calls ?s1) countSQL [] = Inl e \<longrightarrow> CountFailed (message e) \<in> set l1"
    using count_records_effect[of eng ?s1] by blast
  let ?s2 = "console_log SampleHeader (count_records eng ?s1)"
  obtain l2 where s:
    "sample_records eng ?s2 = ?s2\<lparr>console := console ?s2 @ l2, calls := calls ?s2 @ [SQLQuery sampleSQL []]\<rparr>"
    "\<forall>n. Imported n \<notin> set l2"
    "\<forall>e. on_SQLQuery eng (calls ?s2) sampleSQL [] = Inl e \<longrightarrow> SampleFailed (message e) \<in> set l2"
    using sample_records_effect[of eng ?s2] by blast
  have calls1: "calls ?s1 = calls st" by (simp add: console_log_sel)
  have calls2: "calls ?s2 = calls st @ [SQLQuery countSQL []]"
    by (simp add: console_log_sel c(1))
  have "console (verify_import eng st) = console st @ (Verifying # l1 @ SampleHeader # l2)"
    unfolding verify_import_def s(1) by (simp add: console_log_sel c(1))
  then show ?thesis
    using c(2,3) s(2,3) unfolding calls1 calls2
    by (intro exI[of _ "Verifying # l1 @ SampleHeader # l2"]) auto
qed

lemma import_finally_console:
  "\<exists>l. console (import_finally eng st) = console st @ [l] \<and> (\<forall>n. l \<noteq> Imported n)"
  by (cases "on_logout eng (calls st)")
     (auto simp: import_finally_def client_logout_def console_log_def)

text \<open>
  Claim C8. Once the run has reached the import (login, database, file and table are
  done), it resolves whatever the count query and the sample query reply or throw: the
  count it reports is the count at the end of the loop, printed before the verification
  pass, which prints no such line; a query that throws is reported by its own line.
\<close>

theorem verification_failure_is_not_fatal:
  assumes "import_setup eng file st0 = (Inr candidates, st1)"
  shows "\<exists>cnt st2. import_loop eng candidates batchSize 0 (0, st1) = Some (cnt, st2) \<and>
     (\<forall>q. \<exists>st ls.
        importJSONToImmuDB (eng\<lparr>on_SQLQuery := q\<rparr>) file st0 = Some (Inr (), st) \<and>
        console st = console st2 @ Imported cnt # ls \<and>
        (\<forall>n. Imported n \<notin> set ls) \<and>
        (\<forall>e. q (calls st2) countSQL [] = Inl e \<longrightarrow> CountFailed (message e) \<in> set ls) \<and>
        (\<forall>e. q (calls st2 @ [SQLQuery countSQL []]) sampleSQL [] = Inl e \<longrightarrow>
           SampleFailed (message e) \<in> set ls))"
proof -
  have b: "0 < batchSize" by (simp add: batchSize_def)
  obtain cnt st2 where loop: "import_loop eng candidates batchSize 0 (0, st1) = Some (cnt, st2)"
    using import_loop_result[OF b, of eng candidates st1] by blast
  have "\<exists>st ls.
        importJSONToImmuDB (eng\<lparr>on_SQLQuery := q\<rparr>) file st0 = Some (Inr (), st) \<and>
        console st = console st2 @ Imported cnt # ls \<and>
        (\<forall>n. Imported n \<notin> set ls) \<and>
        (\<forall>e. q (calls st2) countSQL [] = Inl e \<longrightarrow> CountFailed (message e) \<in> set ls) \<and>
        (\<forall>e. q (calls st2 @ [SQLQuery countSQL []]) sampleSQL [] = Inl e \<longrightarrow>
           SampleFailed (message e) \<in> set ls)" for q
  proof -
    let ?eng = "eng\<lparr>on_SQLQuery := q\<rparr>"
    let ?s3 = "console_log (Imported cnt) st2"
    have body: "import_body ?eng file st0 = Some (Inr (), verify_import ?eng ?s3)"
      by (simp add: import_body_def import_setup_ignores_queries assms
          import_loop_ignores_queries[OF b] loop)
    then have run: "importJSONToImmuDB ?eng file st0 =
        Some (Inr (), import_finally ?eng (verify_import ?eng ?s3))"
      by (simp add: importJSONToImmuDB_def)
    obtain ls where v:
      "console (verify_import ?eng ?s3) = console ?s3 @ ls"
      "\<forall>n. Imported n \<notin> set ls"
      "\<forall>e. on_SQLQuery ?eng (calls ?s3) countSQL [] = Inl e \<longrightarrow> CountFailed (message e) \<in> set ls"
      "\<forall>e. on_SQLQuery ?eng (calls ?s3 @ [SQLQuery countSQL []]) sampleSQL [] = Inl e \<longrightarrow>
         SampleFailed (message e) \<in> set ls"
      using verify_import_effect[of ?eng ?s3] by blast
    obtain l where f:
      "console (import_finally ?eng (verify_import ?eng ?s3)) =
         console (verify_import ?eng ?s3) @ [l]" "\<forall>n. l \<noteq> Imported n"
      using import_finally_console[of ?eng "verify_import ?eng ?s3"] by blast
    have c3: "calls ?s3 = calls st2" "console ?s3 = console st2 @ [Imported cnt]"
      by (simp_all add: console_log_sel)
    show ?thesis
      using run v f unfolding c3
      by (intro exI[of _ "import_finally ?eng (verify_import ?eng ?s3)"] exI[of _ "ls @ [l]"])
         auto
  qed
  with loop show ?thesis by blast
qed

lemma setup_example:
  "fst (import_setup accepting_engine example_file fresh_state) = Inr three_candidates"
  by (simp add: import_setup_def client_login_def create_or_use_database_def
      client_createDatabase_def client_useDatabase_def client_SQLExec_def find_candidates_def
      example_file_def accepting_engine_def fresh_state_def console_log_def)

theorem verification_failure_is_not_fatal_witness:
  "\<exists>st. importJSONToImmuDB queries_failing example_file fresh_state = Some (Inr (), st) \<and>
      Imported 3 \<in> set (console st) \<and>
      CountFailed ''query failed'' \<in> set (console st) \<and>
      SampleFailed ''query failed'' \<in> set (console st)"
proof -
  let ?st1 = "snd (import_setup accepting_engine example_file fresh_state)"
  let ?q = "\<lambda>(h::call list) (sql::string) (ps::params). (Inl (Error ''query failed'') :: js_error + row list option)"
  have su: "import_setup accepting_engine example_file fresh_state = (Inr three_candidates, ?st1)"
    using setup_example by (simp add: prod_eq_iff)
  obtain cnt st2 where
    loop: "import_loop accepting_engine three_candidates batchSize 0 (0, ?st1) = Some (cnt, st2)" and
    run: "\<forall>q. \<exists>st ls.
        importJSONToImmuDB (accepting_engine\<lparr>on_SQLQuery := q\<rparr>) example_file fresh_state =
          Some (Inr (), st) \<and>
        console st = console st2 @ Imported cnt # ls \<and>
        (\<forall>n. Imported n \<notin> set ls) \<and>
        (\<forall>e. q (calls st2) countSQL [] = Inl e \<longrightarrow> CountFailed (message e) \<in> set ls) \<and>
        (\<forall>e. q (calls st2 @ [SQLQuery countSQL []]) sampleSQL [] = Inl e \<longrightarrow>
           SampleFailed (message e) \<in> set ls)"
    using verification_failure_is_not_fatal[OF su] by blast
  have "0 < batchSize" by (simp add: batchSize_def)
  from import_loop_result[OF this, of accepting_engine three_candidates ?st1] loop
  have "cnt = inserted_upto accepting_engine (calls ?st1) three_candidates batchSize
      (num_batches (length three_candidates) batchSize)"
    by simp
  also have "num_batches (length three_candidates) batchSize = 1"
    by (simp add: num_batches_def batchSize_def three_candidates_def)
  finally have cnt: "cnt = 3"
    by (simp add: inserted_upto_def batch_reply_accepting batch_at_def slice_def
        three_candidates_def batchSize_def)
  from run[rule_format, of ?q] obtain st ls where
    "importJSONToImmuDB queries_failing example_file fresh_state = Some (Inr (), st)"
    "console st = console st2 @ Imported cnt # ls"
    "CountFailed ''query failed'' \<in> set ls" "SampleFailed ''query failed'' \<in> set ls"
    unfolding queries_failing_def by auto
  then show ?thesis using cnt by auto
qed

section \<open>A run without failures, and the empty dataset\<close>

lemma count_records_calls:
  "calls (count_records eng st) = calls st @ [SQLQuery countSQL []]"
  using count_records_effect[of eng st] by auto

lemma sample_records_calls:
  "calls (sample_records eng st) = calls st @ [SQLQuery sampleSQL []]"
  using sample_records_effect[of eng st] by auto

lemma verify_import_calls:
  "calls (verify_import eng st) = calls st @ [SQLQuery countSQL [], SQLQuery sampleSQL []]"
  by (simp add: verify_import_def sample_records_calls count_records_calls console_log_sel)

lemma import_finally_calls: "calls (import_finally eng st) = calls st @ [Logout]"
  by (cases "on_logout eng (calls st)")
     (auto simp: import_finally_def client_logout_def console_log_def)

lemma import_empty_dataset:
  assumes "import_setup eng file st0 = (Inr [], st1)"
  shows "\<exists>st. importJSONToImmuDB eng file st0 = Some (Inr (), st) \<and>
     calls st = calls st1 @ [SQLQuery countSQL [], SQLQuery sampleSQL [], Logout] \<and>
     Imported 0 \<in> set (console st)"
proof -
  let ?s = "console_log (Imported 0) st1"
  let ?st = "import_finally eng (verify_import eng ?s)"
  have "import_body eng file st0 = Some (Inr (), verify_import eng ?s)"
    by (simp add: import_body_def assms import_loop_empty)
  then have run: "importJSONToImmuDB eng file st0 = Some (Inr (), ?st)"
    by (simp add: importJSONToImmuDB_def)
  have c: "calls ?st = calls st1 @ [SQLQuery countSQL [], SQLQuery sampleSQL [], Logout]"
    by (simp add: import_finally_calls verify_import_calls console_log_sel)
  obtain ls where "console (verify_import eng ?s) = console ?s @ ls"
    using verify_import_effect[of eng ?s] by blast
  moreover obtain l where "console ?st = console (verify_import eng ?s) @ [l]"
    using import_finally_console[of eng "verify_import eng ?s"] by blast
  ultimately have "Imported 0 \<in> set (console ?st)" by (simp add: console_log_sel)
  with run c show ?thesis by blast
qed

text \<open>
  Claim C4. For a batch size \<open>b \<ge> 1\<close>, when the engine accepts the statement of every
  batch the count at the end of the loop is the size of the dataset. For the empty
  dataset the loop ends at once: the count is zero and the session has seen no call.
  A run whose file holds the empty dataset therefore reports zero records, and after the
  table has been created its only calls are the two queries of the verification pass and
  the logout.
\<close>

theorem all_batches_accepted_counts_dataset:
  "(1 \<le> b \<longrightarrow>
      (\<exists>cnt st. import_loop eng cs b 0 (0, st0) = Some (cnt, st) \<and>
         ((\<forall>k < num_batches (length cs) b. \<not> isl (batch_reply eng (calls st0) cs b k)) \<longrightarrow>
            cnt = length cs))) \<and>
   import_loop eng [] b 0 (0, st0) = Some (0, st0) \<and>
   (import_setup eng file st0 = (Inr [], st1) \<longrightarrow>
      (\<exists>st. importJSONToImmuDB eng file st0 = Some (Inr (), st) \<and>
         calls st = calls st1 @ [SQLQuery countSQL [], SQLQuery sampleSQL [], Logout] \<and>
         Imported 0 \<in> set (console st)))"
proof (intro conjI impI)
  assume "1 \<le> b"
  then have b: "0 < b" by simp
  let ?nb = "num_batches (length cs) b"
  have "inserted_upto eng (calls st0) cs b ?nb = length cs"
    if ok: "\<forall>k < ?nb. \<not> isl (batch_reply eng (calls st0) cs b k)"
  proof -
    have "inserted_upto eng (calls st0) cs b ?nb =
        sum_list (map (\<lambda>k. length (batch_at cs b k)) [0..<?nb])"
      unfolding inserted_upto_def by (rule sum_list_all_ok) (use ok in auto)
    then show ?thesis by (simp only: sum_length_batches[OF b])
  qed
  then show "\<exists>cnt st. import_loop eng cs b 0 (0, st0) = Some (cnt, st) \<and>
         ((\<forall>k < ?nb. \<not> isl (batch_reply eng (calls st0) cs b k)) \<longrightarrow> cnt = length cs)"
    using import_loop_result[OF b, of eng cs st0] by blast
next
  show "import_loop eng [] b 0 (0, st0) = Some (0, st0)" by (rule import_loop_empty)
next
  assume "import_setup eng file st0 = (Inr [], st1)"
  then show "\<exists>st. importJSONToImmuDB eng file st0 = Some (Inr (), st) \<and>
         calls st = calls st1 @ [SQLQuery countSQL [], SQLQuery sampleSQL [], Logout] \<and>
         Imported 0 \<in> set (console st)"
    by (rule import_empty_dataset)
qed

lemma setup_empty_export:
  "import_setup accepting_engine empty_export fresh_state =
     (Inr [],
      \<lparr>console = [Connecting, Connected, CreatedDatabase dbName, ReadingFile, FoundRecords 0,
                  CreatingSchema, SchemaCreated],
       calls = [Login ''immudb'' ''immudb'', CreateDatabase dbName, UseDatabase dbName,
                SQLExec createTableSQL []]\<rparr>)"
  by (simp add: import_setup_def client_login_def create_or_use_database_def
      client_createDatabase_def client_useDatabase_def client_SQLExec_def find_candidates_def
      empty_export_def accepting_engine_def fresh_state_def console_log_def)

theorem all_batches_accepted_counts_dataset_witness:
  "(1::nat) \<le> 2 \<and>
   (\<exists>st. import_loop accepting_engine three_candidates 2 0 (0, fresh_state) = Some (3, st)) \<and>
   (\<exists>st. importJSONToImmuDB accepting_engine empty_export fresh_state = Some (Inr (), st) \<and>
      calls st =
        [Login ''immudb'' ''immudb'', CreateDatabase dbName, UseDatabase dbName,
         SQLExec createTableSQL [], SQLQuery countSQL [], SQLQuery sampleSQL [], Logout] \<and>
      Imported 0 \<in> set (console st))"
proof -
  note c4 = all_batches_accepted_counts_dataset
    [of 2 accepting_engine three_candidates fresh_state empty_export
      "\<lparr>console = [Connecting, Connected, CreatedDatabase dbName, ReadingFile, FoundRecords 0,
                  CreatingSchema, SchemaCreated],
       calls = [Login ''immudb'' ''immudb'', CreateDatabase dbName, UseDatabase dbName,
                SQLExec createTableSQL []]\<rparr>"]
  have "\<exists>cnt st. import_loop accepting_engine three_candidates 2 0 (0, fresh_state) = Some (cnt, st) \<and>
      cnt = length three_candidates"
    using c4 by (simp add: batch_reply_accepting)
  moreover have "length three_candidates = 3" by (simp add: three_candidates_def)
  moreover have "\<exists>st. importJSONToImmuDB accepting_engine empty_export fresh_state = Some (Inr (), st) \<and>
      calls st =
        [Login ''immudb'' ''immudb'', CreateDatabase dbName, UseDatabase dbName,
         SQLExec createTableSQL [], SQLQuery countSQL [], SQLQuery sampleSQL [], Logout] \<and>
      Imported 0 \<in> set (console st)"
    using c4 setup_empty_export by simp
  ultimately show ?thesis by simp
qed

section \<open>The CRUD service\<close>

lemma getUser_found:
  assumes "on_SQLQuery eng (calls st) selectUserSQL [(''id'', VString uid)] = Inr (Some (r # rs))"
  shows "getUser eng uid st =
     (Inr \<lparr>data = RowData r, verified = True, txId = None,
           proof' = Some (QueryProof (Some (r # rs)))\<rparr>,
      st\<lparr>console := console st @ [LoggedRows (r # rs)],
         calls := calls st @ [select_call uid]\<rparr>)"
  using assms by (simp add: getUser_def client_SQLQuery_def console_log_def select_call_def)

lemma getUser_missing:
  assumes "on_SQLQuery eng (calls st) selectUserSQL [(''id'', VString uid)] = Inr res"
    and "res = None \<or> res = Some []"
  shows "getUser eng uid st =
     (Inl (Error ''Failed to get user: Error: User not found''),
      st\<lparr>calls := calls st @ [select_call uid]\<rparr>)"
  using assms
  by (auto simp: getUser_def client_SQLQuery_def toString_error_def select_call_def)

lemma updateUser_missing:
  assumes "on_SQLQuery eng (calls st) selectUserSQL [(''id'', VString uid)] = Inr res"
    and "res = None \<or> res = Some []"
  shows "updateUser eng uid updates st =
     (Inl (Error ''Failed to update user: Error: Failed to get user: Error: User not found''),
      st\<lparr>calls := calls st @ [select_call uid]\<rparr>)"
  by (simp add: updateUser_def getUser_missing[OF assms] toString_error_def)

lemma updateUser_rejected:
  assumes "on_SQLQuery eng (calls st) selectUserSQL [(''id'', VString uid)] = Inr (Some (r # rs))"
    and "on_SQLExec eng (calls st @ [select_call uid]) updateUserSQL
           [(''id'', VString uid), (''name'', VString (or_empty (name_opt updates))),
            (''email'', VString (or_empty (email_opt updates)))] = Inl e"
  shows "calls (snd (updateUser eng uid updates st)) =
     calls st @ [select_call uid, update_call uid updates]"
  using assms(2)
  by (simp add: updateUser_def getUser_found[OF assms(1)] client_SQLExec_def update_call_def)

lemma updateUser_accepted:
  assumes "on_SQLQuery eng (calls st) selectUserSQL [(''id'', VString uid)] = Inr (Some (r # rs))"
    and "on_SQLExec eng (calls st @ [select_call uid]) updateUserSQL
           [(''id'', VString uid), (''name'', VString (or_empty (name_opt updates))),
            (''email'', VString (or_empty (email_opt updates)))] = Inr res"
  shows "updateUser eng uid updates st =
     (case getUser eng uid
             (st\<lparr>console := console st @ [LoggedRows (r # rs)],
                calls := calls st @ [select_call uid, update_call uid updates]\<rparr>) of
        (Inl error, st3) \<Rightarrow>
          (Inl (Error (''Failed to update user: '' @ toString_error error)), st3)
      | (Inr updatedUser, st3) \<Rightarrow>
          (Inr \<lparr>data = data updatedUser, verified = True, txId = first_txId res,
                proof' = Some (ExecProof res)\<rparr>, st3))"
  using assms(2)
  by (simp add: updateUser_def getUser_found[OF assms(1)] client_SQLExec_def update_call_def)

lemma getUser_calls: "calls (snd (getUser eng uid st)) = calls st @ [select_call uid]"
  by (auto simp: getUser_def client_SQLQuery_def console_log_def select_call_def
      split: sum.splits option.splits list.splits)

lemma updateUser_issues_update:
  assumes "on_SQLQuery eng (calls st) selectUserSQL [(''id'', VString uid)] = Inr (Some (r # rs))"
  shows "take (length (calls st) + 2) (calls (snd (updateUser eng uid updates st))) =
     calls st @ [select_call uid, update_call uid updates]"
proof (cases "on_SQLExec eng (calls st @ [select_call uid]) updateUserSQL
           [(''id'', VString uid), (''name'', VString (or_empty (name_opt updates))),
            (''email'', VString (or_empty (email_opt updates)))]")
  case (Inl e)
  show ?thesis by (simp add: updateUser_rejected[OF assms Inl])
next
  case (Inr res)
  let ?st2 = "st\<lparr>console := console st @ [LoggedRows (r # rs)],
                calls := calls st @ [select_call uid, update_call uid updates]\<rparr>"
  have "calls (snd (updateUser eng uid updates st)) = calls (snd (getUser eng uid ?st2))"
    by (simp add: updateUser_accepted[OF assms Inr] split: prod.splits sum.splits)
  then show ?thesis by (simp add: getUser_calls)
qed

lemma table_after_append:
  "table_after ex h (cs @ ds) t = table_after ex (h @ cs) ds (table_after ex h cs t)"
  by (induction cs arbitrary: h t) simp_all

lemma users_table_of_snoc:
  "users_table_of eng (h @ [c]) = apply_call (on_SQLExec eng) h c (users_table_of eng h)"
  by (simp add: users_table_of_def table_after_append)

lemma users_table_of_select [simp]:
  "users_table_of eng (h @ [select_call uid]) = users_table_of eng h"
  by (simp add: users_table_of_snoc apply_call_def select_call_def)

lemma parse_insertUserSQL:
  "parse_sql insertUserSQL =
     Some (Insert ''users'' [''id'', ''name'', ''email'', ''created_at'']
       [[ParamRef ''id'', ParamRef ''name'', ParamRef ''email'', ParamRef ''createdAt'']])"
  by code_simp

lemma parse_selectUserSQL:
  "parse_sql selectUserSQL =
     Some (Select [''id'', ''name'', ''email'', ''created_at''] ''users'' ''id'' (ParamRef ''id''))"
  by code_simp

lemma parse_updateUserSQL:
  "parse_sql updateUserSQL =
     Some (Update ''users'' [(''name'', ParamRef ''name''), (''email'', ParamRef ''email'')]
       ''id'' (ParamRef ''id''))"
  by code_simp

lemma project_row [simp]:
  "assigned users_schema [i, n, e, c] ''id'' = i"
  "assigned users_schema [i, n, e, c] ''name'' = n"
  "assigned users_schema [i, n, e, c] ''email'' = e"
  "assigned users_schema [i, n, e, c] ''created_at'' = c"
  by (simp_all add: assigned_def users_schema_def)

lemma users_table_of_insert:
  assumes "on_SQLExec eng h insertUserSQL
      [(''id'', VString (id' user)), (''name'', VString (name user)),
       (''email'', VString (email user)), (''createdAt'', VInt now)] = Inr res"
  shows "users_table_of eng (h @ [insert_call user now]) (VString (id' user)) =
     Some [VString (id' user), VString (name user), VString (email user), VInt now]"
  using assms
  by (simp add: users_table_of_snoc apply_call_def insert_call_def apply_exec_def
      parse_insertUserSQL insert_row_def assigned_def users_schema_def param_def)

lemma users_table_of_update:
  assumes "on_SQLExec eng h updateUserSQL
      [(''id'', VString uid), (''name'', VString (or_empty (name_opt updates))),
       (''email'', VString (or_empty (email_opt updates)))] = Inr res"
    and "users_table_of eng h (VString uid) = Some [i, n, e, c]"
  shows "users_table_of eng (h @ [update_call uid updates]) (VString uid) =
     Some [i, VString (or_empty (name_opt updates)), VString (or_empty (email_opt updates)), c]"
  using assms
  by (simp add: users_table_of_snoc apply_call_def update_call_def apply_exec_def
      parse_updateUserSQL update_row_def users_schema_def param_def)

lemma insert_rows_keep_missing:
  assumes "t key = None"
    and "key \<notin> set (map (\<lambda>r. assigned cols (map (eval_expr ps) r) ''id'') rows)"
  shows "foldl (insert_row ps cols) t rows key = None"
  using assms
  by (induction rows arbitrary: t) (simp_all add: insert_row_def Let_def)

lemma apply_exec_keeps_missing:
  assumes "t key = None" and "key \<notin> set (inserted_ids sql ps)"
  shows "apply_exec sql ps t key = None"
proof (cases "parse_sql sql")
  case None
  with assms(1) show ?thesis by (simp add: apply_exec_def)
next
  case (Some s)
  show ?thesis
  proof (cases s)
    case (Insert tbl cols rows)
    with Some assms show ?thesis
      by (simp add: apply_exec_def inserted_ids_def insert_rows_keep_missing
          split: if_splits)
  next
    case (Update tbl assigns c e)
    with Some assms(1) show ?thesis
      by (auto simp: apply_exec_def split: option.splits)
  next
    case (Select cols tbl c e)
    with Some assms(1) show ?thesis by (simp add: apply_exec_def)
  qed
qed

lemma table_after_never_inserted:
  assumes "t key = None"
    and "\<forall>sql ps. SQLExec sql ps \<in> set cs \<longrightarrow> key \<notin> set (inserted_ids sql ps)"
  shows "table_after ex h cs t key = None"
  using assms
proof (induction cs arbitrary: h t)
  case Nil
  then show ?case by simp
next
  case (Cons c cs)
  have "apply_call ex h c t key = None"
  proof (cases c)
    case (SQLExec sql ps)
    with Cons.prems(2) have "key \<notin> set (inserted_ids sql ps)" by auto
    with Cons.prems(1) SQLExec show ?thesis
      by (simp add: apply_call_def apply_exec_keeps_missing split: sum.splits)
  qed (use Cons.prems(1) in \<open>simp_all add: apply_call_def\<close>)
  moreover have "\<forall>sql ps. SQLExec sql ps \<in> set cs \<longrightarrow> key \<notin> set (inserted_ids sql ps)"
    using Cons.prems(2) by auto
  ultimately show ?case using Cons.IH by simp
qed

lemma never_created_not_in_table:
  assumes "\<forall>sql ps. SQLExec sql ps \<in> set h \<longrightarrow> VString uid \<notin> set (inserted_ids sql ps)"
  shows "users_table_of eng h (VString uid) = None"
  unfolding users_table_of_def by (rule table_after_never_inserted) (use assms in simp_all)

lemma select_answer_by_id:
  "select_answer selectUserSQL [(''id'', VString uid)] t =
     Some (case t (VString uid) of
             None \<Rightarrow> []
           | Some r \<Rightarrow> [map (assigned users_schema r) [''id'', ''name'', ''email'', ''created_at'']])"
  by (simp add: select_answer_def parse_selectUserSQL param_def)

lemma reads_users_table_select:
  assumes "reads_users_table eng"
  shows "on_SQLQuery eng h selectUserSQL [(''id'', VString uid)] =
     Inr (Some (case users_table_of eng h (VString uid) of
                  None \<Rightarrow> []
                | Some r \<Rightarrow> [map (assigned users_schema r) [''id'', ''name'', ''email'', ''created_at'']]))"
  using assms select_answer_by_id[of uid "users_table_of eng h"]
  by (simp add: reads_users_table_def)

lemma table_engine_reads: "reads_users_table table_engine"
  by (simp add: reads_users_table_def table_engine_def users_table_of_def accepting_engine_def)

lemma createUser_accepted:
  assumes "on_SQLExec eng (calls st) insertUserSQL
      [(''id'', VString (id' user)), (''name'', VString (name user)),
       (''email'', VString (email user)), (''createdAt'', VInt now)] = Inr res"
  shows "createUser eng user now st =
     (Inr \<lparr>data = UserData \<lparr>id' = id' user, name = name user, email = email user,
                              createdAt = Date now\<rparr>,
           verified = True, txId = first_txId res, proof' = Some (ExecProof res)\<rparr>,
      st\<lparr>calls := calls st @ [insert_call user now]\<rparr>)"
  using assms by (simp add: createUser_def client_SQLExec_def insert_call_def)

lemma updateUser_on_table:
  assumes rd: "reads_users_table eng"
    and tb: "users_table_of eng (calls st) (VString uid) = Some [i, n, e, c]"
    and up: "on_SQLExec eng (calls st @ [select_call uid]) updateUserSQL
         [(''id'', VString uid), (''name'', VString (or_empty (name_opt updates))),
          (''email'', VString (or_empty (email_opt updates)))] = Inr res"
  shows "updateUser eng uid updates st =
     (Inr \<lparr>data = RowData [i, VString (or_empty (name_opt updates)),
                            VString (or_empty (email_opt updates)), c],
           verified = True, txId = first_txId res, proof' = Some (ExecProof res)\<rparr>,
      st\<lparr>console := console st @
             [LoggedRows [[i, n, e, c]],
              LoggedRows [[i, VString (or_empty (name_opt updates)),
                           VString (or_empty (email_opt updates)), c]]],
         calls := calls st @ [select_call uid, update_call uid updates, select_call uid]\<rparr>)"
    and "users_table_of eng
       (calls st @ [select_call uid, update_call uid updates, select_call uid]) (VString uid) =
     Some [i, VString (or_empty (name_opt updates)), VString (or_empty (email_opt updates)), c]"
proof -
  let ?row = "[i, VString (or_empty (name_opt updates)), VString (or_empty (email_opt updates)), c]"
  let ?st2 = "st\<lparr>console := console st @ [LoggedRows [[i, n, e, c]]],
                calls := calls st @ [select_call uid, update_call uid updates]\<rparr>"
  have s1: "on_SQLQuery eng (calls st) selectUserSQL [(''id'', VString uid)] =
      Inr (Some ([i, n, e, c] # []))"
    by (simp add: reads_users_table_select[OF rd] tb)
  have t1: "users_table_of eng (calls st @ [select_call uid]) (VString uid) = Some [i, n, e, c]"
    using tb by simp
  have t2: "users_table_of eng ((calls st @ [select_call uid]) @ [update_call uid updates])
      (VString uid) = Some ?row"
    using users_table_of_update[OF up t1] by simp
  have s2: "on_SQLQuery eng (calls ?st2) selectUserSQL [(''id'', VString uid)] =
      Inr (Some (?row # []))"
    using t2 by (simp add: reads_users_table_select[OF rd])
  show "updateUser eng uid updates st =
     (Inr \<lparr>data = RowData ?row, verified = True, txId = first_txId res,
           proof' = Some (ExecProof res)\<rparr>,
      st\<lparr>console := console st @ [LoggedRows [[i, n, e, c]], LoggedRows [?row]],
         calls := calls st @ [select_call uid, update_call uid updates, select_call uid]\<rparr>)"
    by (simp add: updateUser_accepted[OF s1 up] getUser_found[OF s2])
  have "users_table_of eng ((calls st @ [select_call uid, update_call uid updates]) @
      [select_call uid]) = users_table_of eng (calls st @ [select_call uid, update_call uid updates])"
    by (rule users_table_of_select)
  then show "users_table_of eng
       (calls st @ [select_call uid, update_call uid updates, select_call uid]) (VString uid) =
     Some ?row"
    using t2 by simp
qed

lemma calls_after_alice: "calls after_alice = [insert_call alice 1700000000000]"
  by (simp add: after_alice_def createUser_def client_SQLExec_def insert_call_def
      table_engine_def accepting_engine_def fresh_state_def split: sum.splits)

lemma table_after_alice:
  "users_table_of table_engine (calls after_alice) (VString ''user001'') =
     Some [VString ''user001'', VString ''Alice Johnson'', VString ''alice@example.com'',
           VInt 1700000000000]"
proof -
  have "on_SQLExec table_engine [] insertUserSQL
      [(''id'', VString (id' alice)), (''name'', VString (name alice)),
       (''email'', VString (email alice)), (''createdAt'', VInt 1700000000000)] =
      Inr (ExecResult [0])"
    by (simp add: table_engine_def accepting_engine_def)
  from users_table_of_insert[OF this] show ?thesis
    by (simp add: calls_after_alice alice_def)
qed

lemma table_engine_accepts:
  "on_SQLExec table_engine h sql ps = Inr (ExecResult [length h])"
  by (simp add: table_engine_def accepting_engine_def)

subsection \<open>Create, then read\<close>

text \<open>
  Claim C5. When the store accepts the insert of \<open>createUser\<close> and answers reads from
  its table, the response of \<open>createUser\<close> carries the input with the creation time, and
  \<open>getUser\<close> on the same id returns the row with the id, the name and the email of the
  input and that creation time, which is a number and not null. The store reads both
  statements from their text: the insert puts the four parameters into the four columns
  of \<open>users\<close>, the select reads those columns of the row with the given id.
\<close>

theorem create_then_read_round_trip:
  assumes "reads_users_table eng"
    and "on_SQLExec eng (calls st) insertUserSQL
      [(''id'', VString (id' user)), (''name'', VString (name user)),
       (''email'', VString (email user)), (''createdAt'', VInt now)] = Inr res"
  shows "fst (createUser eng user now st) =
       Inr \<lparr>data = UserData \<lparr>id' = id' user, name = name user, email = email user,
                               createdAt = Date now\<rparr>,
            verified = True, txId = first_txId res, proof' = Some (ExecProof res)\<rparr> \<and>
     map_sum (\<lambda>e. e) data (fst (getUser eng (id' user) (snd (createUser eng user now st)))) =
       Inr (RowData [VString (id' user), VString (name user), VString (email user), VInt now]) \<and>
     VInt now \<noteq> VNull \<and>
     parse_sql insertUserSQL =
       Some (Insert ''users'' [''id'', ''name'', ''email'', ''created_at'']
         [[ParamRef ''id'', ParamRef ''name'', ParamRef ''email'', ParamRef ''createdAt'']]) \<and>
     parse_sql selectUserSQL =
       Some (Select [''id'', ''name'', ''email'', ''created_at''] ''users'' ''id'' (ParamRef ''id''))"
proof -
  let ?st1 = "st\<lparr>calls := calls st @ [insert_call user now]\<rparr>"
  let ?row = "[VString (id' user), VString (name user), VString (email user), VInt now]"
  have c: "createUser eng user now st =
     (Inr \<lparr>data = UserData \<lparr>id' = id' user, name = name user, email = email user,
                              createdAt = Date now\<rparr>,
           verified = True, txId = first_txId res, proof' = Some (ExecProof res)\<rparr>, ?st1)"
    using assms(2) by (rule createUser_accepted)
  have "on_SQLQuery eng (calls ?st1) selectUserSQL [(''id'', VString (id' user))] =
      Inr (Some [?row])"
    by (simp add: reads_users_table_select[OF assms(1)] users_table_of_insert[OF assms(2)])
  then have "getUser eng (id' user) ?st1 =
     (Inr \<lparr>data = RowData ?row, verified = True, txId = None,
           proof' = Some (QueryProof (Some [?row]))\<rparr>,
      ?st1\<lparr>console := console ?st1 @ [LoggedRows [?row]],
         calls := calls ?st1 @ [select_call (id' user)]\<rparr>)"
    by (rule getUser_found)
  with c show ?thesis by (simp add: parse_insertUserSQL parse_selectUserSQL)
qed

theorem create_then_read_round_trip_witness:
  "map_sum (\<lambda>e. e) data
     (fst (getUser table_engine ''user001''
        (snd (createUser table_engine alice 1700000000000 fresh_state)))) =
   Inr (RowData [VString ''user001'', VString ''Alice Johnson'', VString ''alice@example.com'',
          VInt 1700000000000])"
proof -
  have "on_SQLExec table_engine (calls fresh_state) insertUserSQL
      [(''id'', VString (id' alice)), (''name'', VString (name alice)),
       (''email'', VString (email alice)), (''createdAt'', VInt 1700000000000)] =
      Inr (ExecResult [0])"
    by (simp add: table_engine_def accepting_engine_def fresh_state_def)
  from create_then_read_round_trip[OF table_engine_reads this]
  show ?thesis by (simp add: alice_def)
qed

subsection \<open>Update\<close>

text \<open>
  Claim C6. \<open>updateUser\<close> begins with \<open>getUser\<close>: when the select returns no row it
  fails with the error of \<open>getUser\<close>, wrapped, and no update statement is issued. When
  the store holds a row under the id, accepts the update and answers reads from its
  table, the calls are select, update, select; the response carries the row after the
  update, and a following \<open>getUser\<close> returns it too: the first cell (the id) and the last
  are as before, the name and the email are those of the update.
\<close>

theorem update_checks_then_writes_then_reads:
  "(on_SQLQuery eng (calls st) selectUserSQL [(''id'', VString uid)] = Inr None \<or>
    on_SQLQuery eng (calls st) selectUserSQL [(''id'', VString uid)] = Inr (Some []) \<longrightarrow>
      updateUser eng uid updates st =
        (Inl (Error ''Failed to update user: Error: Failed to get user: Error: User not found''),
         st\<lparr>calls := calls st @ [select_call uid]\<rparr>)) \<and>
   (reads_users_table eng \<and>
    users_table_of eng (calls st) (VString uid) = Some [i, n, e, c] \<and>
    on_SQLExec eng (calls st @ [select_call uid]) updateUserSQL
         [(''id'', VString uid), (''name'', VString (or_empty (name_opt updates))),
          (''email'', VString (or_empty (email_opt updates)))] = Inr res \<longrightarrow>
      calls (snd (updateUser eng uid updates st)) =
        calls st @ [select_call uid, update_call uid updates, select_call uid] \<and>
      fst (updateUser eng uid updates st) =
        Inr \<lparr>data = RowData [i, VString (or_empty (name_opt updates)),
                               VString (or_empty (email_opt updates)), c],
             verified = True, txId = first_txId res, proof' = Some (ExecProof res)\<rparr> \<and>
      map_sum (\<lambda>e. e) data (fst (getUser eng uid (snd (updateUser eng uid updates st)))) =
        Inr (RowData [i, VString (or_empty (name_opt updates)),
                         VString (or_empty (email_opt updates)), c]))"
proof (intro conjI impI)
  assume "on_SQLQuery eng (calls st) selectUserSQL [(''id'', VString uid)] = Inr None \<or>
    on_SQLQuery eng (calls st) selectUserSQL [(''id'', VString uid)] = Inr (Some [])"
  then obtain r where "on_SQLQuery eng (calls st) selectUserSQL [(''id'', VString uid)] = Inr r"
    "r = None \<or> r = Some []" by blast
  then show "updateUser eng uid updates st =
        (Inl (Error ''Failed to update user: Error: Failed to get user: Error: User not found''),
         st\<lparr>calls := calls st @ [select_call uid]\<rparr>)"
    by (rule updateUser_missing)
next
  assume a: "reads_users_table eng \<and>
    users_table_of eng (calls st) (VString uid) = Some [i, n, e, c] \<and>
    on_SQLExec eng (calls st @ [select_call uid]) updateUserSQL
         [(''id'', VString uid), (''name'', VString (or_empty (name_opt updates))),
          (''email'', VString (or_empty (email_opt updates)))] = Inr res"
  then have rd: "reads_users_table eng"
    and tb: "users_table_of eng (calls st) (VString uid) = Some [i, n, e, c]"
    and up: "on_SQLExec eng (calls st @ [select_call uid]) updateUserSQL
         [(''id'', VString uid), (''name'', VString (or_empty (name_opt updates))),
          (''email'', VString (or_empty (email_opt updates)))] = Inr res"
    by blast+
  let ?row = "[i, VString (or_empty (name_opt updates)), VString (or_empty (email_opt updates)), c]"
  let ?st3 = "st\<lparr>console := console st @ [LoggedRows [[i, n, e, c]], LoggedRows [?row]],
         calls := calls st @ [select_call uid, update_call uid updates, select_call uid]\<rparr>"
  note u = updateUser_on_table(1)[OF rd tb up]
  have s3: "on_SQLQuery eng (calls ?st3) selectUserSQL [(''id'', VString uid)] =
      Inr (Some (?row # []))"
    using updateUser_on_table(2)[OF rd tb up]
    by (simp add: reads_users_table_select[OF rd])
  show "calls (snd (updateUser eng uid updates st)) =
        calls st @ [select_call uid, update_call uid updates, select_call uid]"
    by (simp add: u)
  show "fst (updateUser eng uid updates st) =
        Inr \<lparr>data = RowData ?row, verified = True, txId = first_txId res,
             proof' = Some (ExecProof res)\<rparr>"
    by (simp add: u)
  show "map_sum (\<lambda>e. e) data (fst (getUser eng uid (snd (updateUser eng uid updates st)))) =
        Inr (RowData ?row)"
    unfolding u snd_conv by (simp only: getUser_found[OF s3]) simp
qed

theorem update_checks_then_writes_then_reads_witness:
  "updateUser table_engine ''nobody'' \<lparr>name_opt = Some ''X'', email_opt = None\<rparr> after_alice =
     (Inl (Error ''Failed to update user: Error: Failed to get user: Error: User not found''),
      after_alice\<lparr>calls := calls after_alice @ [select_call ''nobody'']\<rparr>) \<and>
   map_sum (\<lambda>e. e) data
     (fst (getUser table_engine ''user001''
        (snd (updateUser table_engine ''user001'' \<lparr>name_opt = Some ''X'', email_opt = None\<rparr>
           after_alice)))) =
   Inr (RowData [VString ''user001'', VString ''X'', VString [], VInt 1700000000000])"
proof -
  have nobody: "users_table_of table_engine (calls after_alice) (VString ''nobody'') = None"
    by (rule never_created_not_in_table)
       (simp add: calls_after_alice insert_call_def alice_def inserted_ids_def
          parse_insertUserSQL assigned_def param_def)
  have missing: "on_SQLQuery table_engine (calls after_alice) selectUserSQL
      [(''id'', VString ''nobody'')] = Inr (Some [])"
    by (simp add: reads_users_table_select[OF table_engine_reads] nobody)
  from update_checks_then_writes_then_reads[of table_engine after_alice "''nobody''" "\<lparr>name_opt = Some ''X'', email_opt = None\<rparr>"]
    missing
  have 1: "updateUser table_engine ''nobody'' \<lparr>name_opt = Some ''X'', email_opt = None\<rparr> after_alice =
     (Inl (Error ''Failed to update user: Error: Failed to get user: Error: User not found''),
      after_alice\<lparr>calls := calls after_alice @ [select_call ''nobody'']\<rparr>)"
    by blast
  from update_checks_then_writes_then_reads[of table_engine after_alice "''user001''" "\<lparr>name_opt = Some ''X'', email_opt = None\<rparr>"
      "VString ''user001''" "VString ''Alice Johnson''" "VString ''alice@example.com''"
      "VInt 1700000000000" "ExecResult [2]"]
    table_engine_reads table_after_alice
  have 2: "map_sum (\<lambda>e. e) data
     (fst (getUser table_engine ''user001''
        (snd (updateUser table_engine ''user001'' \<lparr>name_opt = Some ''X'', email_opt = None\<rparr>
           after_alice)))) =
   Inr (RowData [VString ''user001'', VString ''X'', VString [], VInt 1700000000000])"
    by (simp add: table_engine_accepts calls_after_alice or_empty_def)
  from 1 2 show ?thesis by blast
qed

subsection \<open>Read of a missing user\<close>

text \<open>
  Claim C7. When the select by id returns no result or no row, \<open>getUser\<close> fails with
  the error \<open>User not found\<close> (wrapped by its own \<open>catch\<close>), and the route answers with
  status 404. That is the case for an id that no statement of the session has inserted,
  when the store answers reads from its table.
\<close>

theorem read_of_missing_user_is_not_found:
  assumes "on_SQLQuery eng (calls st) selectUserSQL [(''id'', VString uid)] = Inr None \<or>
     on_SQLQuery eng (calls st) selectUserSQL [(''id'', VString uid)] = Inr (Some []) \<or>
     (reads_users_table eng \<and>
      (\<forall>sql ps. SQLExec sql ps \<in> set (calls st) \<longrightarrow> VString uid \<notin> set (inserted_ids sql ps)))"
  shows "getUser eng uid st =
       (Inl (Error ''Failed to get user: Error: User not found''),
        st\<lparr>calls := calls st @ [SQLQuery selectUserSQL [(''id'', VString uid)]]\<rparr>) \<and>
     fst (get_user_route eng uid st) =
       \<lparr>status = 404, body = Failure ''Failed to get user: Error: User not found''\<rparr>"
proof -
  have "\<exists>res. on_SQLQuery eng (calls st) selectUserSQL [(''id'', VString uid)] = Inr res \<and>
      (res = None \<or> res = Some [])"
    using assms
  proof (elim disjE conjE)
    assume rd: "reads_users_table eng"
      and "\<forall>sql ps. SQLExec sql ps \<in> set (calls st) \<longrightarrow> VString uid \<notin> set (inserted_ids sql ps)"
    then have "users_table_of eng (calls st) (VString uid) = None"
      by (intro never_created_not_in_table)
    then show ?thesis by (simp add: reads_users_table_select[OF rd])
  qed simp_all
  then obtain res where "on_SQLQuery eng (calls st) selectUserSQL [(''id'', VString uid)] = Inr res"
    "res = None \<or> res = Some []" by blast
  from getUser_missing[OF this] show ?thesis
    by (simp add: get_user_route_def select_call_def)
qed

theorem read_of_missing_user_is_not_found_witness:
  "fst (getUser table_engine ''nonexistent'' after_alice) =
     Inl (Error ''Failed to get user: Error: User not found'') \<and>
   status (fst (get_user_route table_engine ''nonexistent'' after_alice)) = 404"
proof -
  have "reads_users_table table_engine \<and>
      (\<forall>sql ps. SQLExec sql ps \<in> set (calls after_alice) \<longrightarrow>
         VString ''nonexistent'' \<notin> set (inserted_ids sql ps))"
    by (simp add: table_engine_reads calls_after_alice insert_call_def alice_def inserted_ids_def
        parse_insertUserSQL assigned_def param_def)
  then show ?thesis
    using read_of_missing_user_is_not_found[of table_engine after_alice "''nonexistent''"]
    by simp
qed

subsection \<open>Update sets both columns\<close>

text \<open>
  Claim C9. For an id whose select returns a row, the second call of \<open>updateUser\<close> is
  the update statement, whose text sets \<open>name\<close> and \<open>email\<close>, with the parameters
  \<open>name\<close> and \<open>email\<close> both present: the string of the request, or the empty string
  when the field is absent, null or empty. A store that accepts the statement and answers
  reads from its table then holds those two values, whatever it held before.
\<close>

theorem update_sets_name_and_email:
  assumes "on_SQLQuery eng (calls st) selectUserSQL [(''id'', VString uid)] = Inr (Some (r # rs))"
  shows "take (length (calls st) + 2) (calls (snd (updateUser eng uid updates st))) =
       calls st @
       [SQLQuery selectUserSQL [(''id'', VString uid)],
        SQLExec updateUserSQL
          [(''id'', VString uid),
           (''name'', VString (case name_opt updates of None \<Rightarrow> [] | Some s \<Rightarrow> s)),
           (''email'', VString (case email_opt updates of None \<Rightarrow> [] | Some s \<Rightarrow> s))]] \<and>
     includes' updateUserSQL ''SET name = @name, email = @email'' \<and>
     (reads_users_table eng \<and>
      users_table_of eng (calls st) (VString uid) = Some [i, n, e, c] \<and>
      on_SQLExec eng (calls st @ [SQLQuery selectUserSQL [(''id'', VString uid)]]) updateUserSQL
         [(''id'', VString uid),
          (''name'', VString (case name_opt updates of None \<Rightarrow> [] | Some s \<Rightarrow> s)),
          (''email'', VString (case email_opt updates of None \<Rightarrow> [] | Some s \<Rightarrow> s))] = Inr res \<longrightarrow>
        users_table_of eng (calls (snd (updateUser eng uid updates st))) (VString uid) =
          Some [i, VString (case name_opt updates of None \<Rightarrow> [] | Some s \<Rightarrow> s),
                   VString (case email_opt updates of None \<Rightarrow> [] | Some s \<Rightarrow> s), c])"
proof (intro conjI impI)
  show "take (length (calls st) + 2) (calls (snd (updateUser eng uid updates st))) =
       calls st @
       [SQLQuery selectUserSQL [(''id'', VString uid)],
        SQLExec updateUserSQL
          [(''id'', VString uid),
           (''name'', VString (case name_opt updates of None \<Rightarrow> [] | Some s \<Rightarrow> s)),
           (''email'', VString (case email_opt updates of None \<Rightarrow> [] | Some s \<Rightarrow> s))]]"
    using updateUser_issues_update[OF assms, of updates]
    by (simp add: select_call_def update_call_def or_empty_def)
  show "includes' updateUserSQL ''SET name = @name, email = @email''"
    by (simp add: updateUserSQL_def)
next
  assume "reads_users_table eng \<and>
      users_table_of eng (calls st) (VString uid) = Some [i, n, e, c] \<and>
      on_SQLExec eng (calls st @ [SQLQuery selectUserSQL [(''id'', VString uid)]]) updateUserSQL
         [(''id'', VString uid),
          (''name'', VString (case name_opt updates of None \<Rightarrow> [] | Some s \<Rightarrow> s)),
          (''email'', VString (case email_opt updates of None \<Rightarrow> [] | Some s \<Rightarrow> s))] = Inr res"
  then have rd: "reads_users_table eng"
    and tb: "users_table_of eng (calls st) (VString uid) = Some [i, n, e, c]"
    and up: "on_SQLExec eng (calls st @ [select_call uid]) updateUserSQL
         [(''id'', VString uid), (''name'', VString (or_empty (name_opt updates))),
          (''email'', VString (or_empty (email_opt updates)))] = Inr res"
    by (simp_all add: select_call_def or_empty_def)
  show "users_table_of eng (calls (snd (updateUser eng uid updates st))) (VString uid) =
          Some [i, VString (case name_opt updates of None \<Rightarrow> [] | Some s \<Rightarrow> s),
                   VString (case email_opt updates of None \<Rightarrow> [] | Some s \<Rightarrow> s), c]"
    using updateUser_on_table(2)[OF rd tb up]
    by (simp add: updateUser_on_table(1)[OF rd tb up] or_empty_def)
qed

theorem update_sets_name_and_email_witness:
  "users_table_of table_engine
     (calls (snd (updateUser table_engine ''user001''
        \<lparr>name_opt = None, email_opt = Some ''alice.smith@example.com''\<rparr> after_alice)))
     (VString ''user001'') =
   Some [VString ''user001'', VString [], VString ''alice.smith@example.com'',
         VInt 1700000000000]"
proof -
  have s: "on_SQLQuery table_engine (calls after_alice) selectUserSQL [(''id'', VString ''user001'')] =
      Inr (Some ([VString ''user001'', VString ''Alice Johnson'', VString ''alice@example.com'',
           VInt 1700000000000] # []))"
    by (simp add: reads_users_table_select[OF table_engine_reads] table_after_alice)
  from update_sets_name_and_email[OF s,
      of "\<lparr>name_opt = None, email_opt = Some ''alice.smith@example.com''\<rparr>"
      "VString ''user001''" "VString ''Alice Johnson''" "VString ''alice@example.com''"
      "VInt 1700000000000" "ExecResult [2]"]
    table_engine_reads table_after_alice
  show ?thesis
    by (simp add: table_engine_accepts calls_after_alice)
qed

subsection \<open>History\<close>

text \<open>
  Claim C10. \<open>getUserAtTransaction\<close> makes one call, the history query with the id as
  its only parameter. For two transaction ids the session afterwards is the same, the
  errors are the same and so are the responses, the field \<open>proof\<close> apart: in particular
  the data.
\<close>

theorem history_ignores_txId:
  "calls (snd (getUserAtTransaction eng uid t1 st)) =
     calls st @ [SQLQuery historySQL [(''id'', VString uid)]] \<and>
   snd (getUserAtTransaction eng uid t1 st) = snd (getUserAtTransaction eng uid t2 st) \<and>
   map_sum (\<lambda>e. e) data (fst (getUserAtTransaction eng uid t1 st)) =
   map_sum (\<lambda>e. e) data (fst (getUserAtTransaction eng uid t2 st)) \<and>
   map_sum (\<lambda>e. e) (\<lambda>r. r\<lparr>proof' := None\<rparr>) (fst (getUserAtTransaction eng uid t1 st)) =
   map_sum (\<lambda>e. e) (\<lambda>r. r\<lparr>proof' := None\<rparr>) (fst (getUserAtTransaction eng uid t2 st))"
  by (cases "on_SQLQuery eng (calls st) historySQL [(''id'', VString uid)]")
     (simp_all add: getUserAtTransaction_def client_SQLQuery_def)

section \<open>Escaping and the generated statement\<close>

lemma lex_run_head: "lex_run Outside insert_head = Some (head_tokens, Outside)"
  by code_simp

lemma lex_run_seq:
  assumes "lex_run st xs = Some (ts, st')" and "lex_run st' ys = Some (us, st'')"
  shows "lex_run st (xs @ ys) = Some (ts @ us, st'')"
  using assms
proof (induction xs arbitrary: st ts)
  case Nil
  then show ?case by simp
next
  case (Cons c cs)
  from Cons.prems(1) obtain st1 t1 vs where
    step: "lex_step st c = Some (st1, t1)" and
    run: "lex_run st1 cs = Some (vs, st')" and
    ts: "ts = t1 @ vs"
    by (auto split: option.splits)
  from Cons.IH[OF run Cons.prems(2)] step ts show ?case by simp
qed

lemma replace_quotes_concat:
  "replace_quotes s = concat (map (\<lambda>c. if c = quote then [quote, quote] else [c]) s)"
  by (induction s) simp_all

lemma escape_replace: "escape v = replace_quotes (or_empty v)"
  by (cases v) (simp_all add: escape_def or_empty_def)

lemma lex_run_literal:
  "lex_run (Inside v) (replace_quotes s @ [quote]) = Some ([], Pending (v @ s))"
  by (induction s arbitrary: v) simp_all

lemma start_space: "is_space c \<Longrightarrow> start_token c = Some (Outside, [])"
  by (auto simp: start_token_def is_space_def quote_def)

lemma space_simps: "is_space (CHR '' '')" "is_space (CHR ''\<newline>'')"
  by (simp_all add: is_space_def)

lemma start_quote: "start_token quote = Some (Inside [], [])"
  by (simp add: start_token_def)

lemma start_comma: "start_token (CHR '','') = Some (Outside, [Comma])"
  by (simp add: start_token_def is_space_def quote_def punctuation_def)

lemma start_lparen: "start_token (CHR ''('') = Some (Outside, [LParen])"
  by (simp add: start_token_def is_space_def quote_def punctuation_def)

lemma start_rparen: "start_token (CHR '')'') = Some (Outside, [RParen])"
  by (simp add: start_token_def is_space_def quote_def punctuation_def)

lemma not_quote: "CHR '','' \<noteq> quote" "CHR ''\<newline>'' \<noteq> quote"
  by (simp_all add: quote_def)

lemmas start_simps = start_space space_simps start_quote start_comma start_lparen start_rparen
  not_quote

lemma lex_run_field: "lex_run Outside (field_literal v) = Some ([], Pending (or_empty v))"
proof -
  have 1: "lex_run Outside (''          '' @ [quote]) = Some ([], Inside [])"
    by (simp add: start_simps)
  have 2: "lex_run (Inside []) (replace_quotes (or_empty v) @ [quote]) =
      Some ([], Pending (or_empty v))"
    using lex_run_literal[of "[]"] by simp
  from lex_run_seq[OF 1 2] show ?thesis
    by (simp add: field_literal_def escape_replace)
qed

lemma join_Cons: "xs \<noteq> [] \<Longrightarrow> join sep (x # xs) = x @ sep @ join sep xs"
  by (cases xs) simp_all

lemma value_tokens_Cons: "vs \<noteq> [] \<Longrightarrow> value_tokens (v # vs) = Lit v # Comma # value_tokens vs"
  by (cases vs) simp_all

lemma rows_tokens_Cons: "rs \<noteq> [] \<Longrightarrow> rows_tokens (r # rs) = row_tokens r @ Comma # rows_tokens rs"
  by (cases rs) simp_all

lemma names_tokens_Cons: "cs \<noteq> [] \<Longrightarrow> names_tokens (c # cs) = Word c # Comma # names_tokens cs"
  by (cases cs) simp_all

lemma lex_run_fields:
  assumes "fs \<noteq> []"
  shows "lex_run Outside (join '',\<newline>'' (map field_literal fs) @ ''\<newline>'') =
     Some (value_tokens (map or_empty fs), Outside)"
  using assms
proof (induction fs rule: list_nonempty_induct)
  case (single f)
  have "lex_run (Pending (or_empty f)) ''\<newline>'' = Some ([Lit (or_empty f)], Outside)"
    by (simp add: start_simps)
  from lex_run_seq[OF lex_run_field this] show ?case by simp
next
  case (cons f fs)
  have 1: "lex_run (Pending (or_empty f)) '',\<newline>'' = Some ([Lit (or_empty f), Comma], Outside)"
    by (simp add: start_simps)
  have "lex_run Outside (field_literal f @ '',\<newline>'' @
        (join '',\<newline>'' (map field_literal fs) @ ''\<newline>'')) =
      Some ([] @ [Lit (or_empty f), Comma] @ value_tokens (map or_empty fs), Outside)"
    by (intro lex_run_seq[OF lex_run_field] lex_run_seq[OF 1] cons.IH)
  then show ?case using cons.hyps by (simp add: join_Cons value_tokens_Cons)
qed

lemma values_row_fields:
  "values_row candidate =
     ''(\<newline>'' @ join '',\<newline>'' (map field_literal (candidate_fields candidate)) @ ''\<newline>        )''"
  by (simp add: values_row_def candidate_fields_def field_literal_def)

lemma candidate_fields_nonempty: "candidate_fields candidate \<noteq> []"
  by (simp add: candidate_fields_def)

lemma lex_run_row:
  "lex_run Outside (values_row candidate) = Some (row_tokens (field_values candidate), Outside)"
proof -
  have 1: "lex_run Outside ''(\<newline>'' = Some ([LParen], Outside)"
    by (simp add: start_simps)
  have 2: "lex_run Outside ''        )'' = Some ([RParen], Outside)"
    by (simp add: start_simps)
  have "lex_run Outside (''(\<newline>'' @
        (join '',\<newline>'' (map field_literal (candidate_fields candidate)) @ ''\<newline>'') @
        ''        )'') =
      Some ([LParen] @ value_tokens (map or_empty (candidate_fields candidate)) @ [RParen], Outside)"
    by (intro lex_run_seq[OF 1] lex_run_seq[OF _ 2] lex_run_fields candidate_fields_nonempty)
  then show ?thesis
    by (simp add: values_row_fields row_tokens_def field_values_def)
qed

lemma lex_run_rows:
  assumes "batch \<noteq> []"
  shows "lex_run Outside (join '','' (map values_row batch)) =
     Some (rows_tokens (map field_values batch), Outside)"
  using assms
proof (induction batch rule: list_nonempty_induct)
  case (single c)
  show ?case by (simp add: lex_run_row)
next
  case (cons c cs)
  have 1: "lex_run Outside '','' = Some ([Comma], Outside)"
    by (simp add: start_simps)
  have "lex_run Outside (values_row c @ '','' @ join '','' (map values_row cs)) =
      Some (row_tokens (field_values c) @ [Comma] @ rows_tokens (map field_values cs), Outside)"
    by (intro lex_run_seq[OF lex_run_row] lex_run_seq[OF 1] cons.IH)
  then show ?case using cons.hyps by (simp add: join_Cons rows_tokens_Cons)
qed

lemma lex_bulkInsertSQL:
  assumes "batch \<noteq> []"
  shows "lex (bulkInsertSQL batch) = Some (head_tokens @ rows_tokens (map field_values batch))"
proof -
  have 1: "lex_run Outside ''\<newline>      '' = Some ([], Outside)"
    by (simp add: start_simps)
  have "lex_run Outside (insert_head @ join '','' (map values_row batch) @ ''\<newline>      '') =
      Some (head_tokens @ rows_tokens (map field_values batch) @ [], Outside)"
    by (intro lex_run_seq[OF lex_run_head] lex_run_seq[OF _ 1] lex_run_rows assms)
  then show ?thesis by (simp add: lex_def bulkInsertSQL_def)
qed


lemma parse_names_tokens:
  assumes "cs \<noteq> []"
  shows "parse_names acc (names_tokens cs @ RParen # ts) = Some (acc @ cs, RParen # ts)"
  using assms
proof (induction cs arbitrary: acc rule: list_nonempty_induct)
  case (single c)
  show ?case by simp
next
  case (cons c cs)
  then show ?case by (simp add: names_tokens_Cons)
qed

lemma parse_values:
  assumes "vs \<noteq> []"
  shows "parse_rows ExpectValue rows cur (value_tokens vs @ RParen # ts) =
     parse_rows AfterRow (rows @ [cur @ map Literal vs]) [] ts"
  using assms
proof (induction vs arbitrary: cur rule: list_nonempty_induct)
  case (single v)
  show ?case by simp
next
  case (cons v vs)
  then show ?case by (simp add: value_tokens_Cons)
qed

lemma parse_all_rows:
  assumes "rs \<noteq> []" and "\<forall>r \<in> set rs. r \<noteq> []"
  shows "parse_rows ExpectRow rows cur (rows_tokens rs) = Some (rows @ map (map Literal) rs)"
  using assms
proof (induction rs arbitrary: rows cur rule: list_nonempty_induct)
  case (single r)
  then show ?case by (simp add: row_tokens_def parse_values)
next
  case (cons r rs)
  then show ?case by (simp add: rows_tokens_Cons row_tokens_def parse_values)
qed

lemma length_insert_columns: "length insert_columns = 56"
  by (simp add: insert_columns_def)

lemma length_field_values: "length (field_values candidate) = 56"
  by (simp add: field_values_def candidate_fields_def)

lemma parse_bulkInsertSQL:
  assumes "batch \<noteq> []"
  shows "parse_sql (bulkInsertSQL batch) =
     Some (Insert ''mba_students'' insert_columns (map (\<lambda>c. map Literal (field_values c)) batch))"
proof -
  let ?rs = "map field_values batch"
  have cols: "insert_columns \<noteq> []" using length_insert_columns by auto
  have names: "parse_names [] (names_tokens insert_columns @ RParen # Word ''VALUES'' # rows_tokens ?rs) =
      Some (insert_columns, RParen # Word ''VALUES'' # rows_tokens ?rs)"
    using parse_names_tokens[OF cols, of "[]"] by simp
  have "field_values c \<noteq> []" for c using length_field_values[of c] by auto
  then have "\<forall>r \<in> set ?rs. r \<noteq> []" by auto
  then have rows: "parse_rows ExpectRow [] [] (rows_tokens ?rs) = Some (map (map Literal) ?rs)"
    using parse_all_rows[of ?rs "[]" "[]"] assms by simp
  have width: "list_all (\<lambda>r. length r = length insert_columns) (map (map Literal) ?rs)"
    by (simp add: list_all_iff length_insert_columns length_field_values)
  have "parse_statement (head_tokens @ rows_tokens ?rs) =
      Some (Insert ''mba_students'' insert_columns (map (map Literal) ?rs))"
    using width
    by (simp add: parse_statement_def head_tokens_def parse_insert_def names rows)
  then show ?thesis
    by (simp add: parse_sql_def lex_bulkInsertSQL[OF assms] comp_def)
qed

text \<open>
  The reader is not indifferent to quoting or to the width of a row: a value whose quote
  is embedded as it is ends the literal early, and a row with fewer values than columns
  is no row of the statement; both statements are refused.
\<close>

lemma unescaped_quote_is_refused:
  "parse_sql (''INSERT INTO t (a) VALUES ('' @ [quote] @ ''D'' @ [quote] @ ''Souza'' @ [quote] @ '')'') =
     None"
  by code_simp

lemma short_row_is_refused:
  "parse_sql (''INSERT INTO t (a, b) VALUES ('' @ [quote] @ ''x'' @ [quote] @ '')'') = None"
  by code_simp

text \<open>
  Claim C3. A field that is null or missing is embedded as the empty string; in a string
  every quote character is replaced by two and nothing else changes. A row embeds each
  of its fields that way, between quotes. The statement of a batch that is not empty is
  well formed: the reader accepts the whole text as an insert into \<open>mba_students\<close> of
  the 56 columns named in its head, with one row per record, each of 56 literals whose
  values are the fields of the record (the empty string for null).
\<close>

theorem escaped_values_keep_statement_well_formed:
  "escape None = [] \<and>
   escape (Some s) = concat (map (\<lambda>c. if c = quote then [quote, quote] else [c]) s) \<and>
   values_row candidate =
     ''(\<newline>'' @
     join '',\<newline>''
       (map (\<lambda>v. ''          '' @ [quote] @ escape v @ [quote]) (candidate_fields candidate)) @
     ''\<newline>        )'' \<and>
   length (candidate_fields candidate) = length insert_columns \<and>
   (batch \<noteq> [] \<longrightarrow>
      parse_sql (bulkInsertSQL batch) =
        Some (Insert ''mba_students'' insert_columns
          (map (\<lambda>candidate. map (\<lambda>v. Literal (or_empty v)) (candidate_fields candidate)) batch)))"
proof (intro conjI impI)
  show "escape None = []" by (simp add: escape_def)
  show "escape (Some s) = concat (map (\<lambda>c. if c = quote then [quote, quote] else [c]) s)"
    by (simp add: escape_replace or_empty_def replace_quotes_concat)
  have "field_literal = (\<lambda>v. ''          '' @ [quote] @ escape v @ [quote])"
    by (intro ext) (simp add: field_literal_def)
  then show "values_row candidate =
     ''(\<newline>'' @
     join '',\<newline>''
       (map (\<lambda>v. ''          '' @ [quote] @ escape v @ [quote]) (candidate_fields candidate)) @
     ''\<newline>        )''"
    using values_row_fields[of candidate] by simp
  show "length (candidate_fields candidate) = length insert_columns"
    using length_field_values[of candidate] by (simp add: length_insert_columns field_values_def)
next
  assume "batch \<noteq> []"
  then have "parse_sql (bulkInsertSQL batch) =
      Some (Insert ''mba_students'' insert_columns (map (\<lambda>c. map Literal (field_values c)) batch))"
    by (rule parse_bulkInsertSQL)
  then show "parse_sql (bulkInsertSQL batch) =
        Some (Insert ''mba_students'' insert_columns
          (map (\<lambda>candidate. map (\<lambda>v. Literal (or_empty v)) (candidate_fields candidate)) batch))"
    by (simp add: field_values_def comp_def)
qed

theorem escaped_values_keep_statement_well_formed_witness:
  "escape (Some (''D'' @ [quote] @ ''Souza'')) = ''D'' @ [quote, quote] @ ''Souza'' \<and>
   map_option (\<lambda>s. case s of
        Insert tbl cols rows \<Rightarrow> (tbl, length cols, length rows, hd rows ! 5, hd rows ! 21)
      | _ \<Rightarrow> ([], 0, 0, Literal [], Literal []))
     (parse_sql (bulkInsertSQL [example_candidate ''A1'' (''D'' @ [quote] @ ''Souza'')])) =
   Some (''mba_students'', 56, 1, Literal (''D'' @ [quote] @ ''Souza''), Literal [])"
  using escaped_values_keep_statement_well_formed
    [of "''D'' @ [quote] @ ''Souza''" "example_candidate ''A1'' (''D'' @ [quote] @ ''Souza'')"
      "[example_candidate ''A1'' (''D'' @ [quote] @ ''Souza'')]"]
  by (simp add: candidate_fields_def example_candidate_def or_empty_def quote_def
      length_insert_columns)

end
